theory Spec2Isabelle
  imports Complex_Main "HOL-Library.Word" "HOL-Library.Sublist"
begin

text \<open>
  A shallow embedding of the Mini ATM demo: the card reader service, the thermal printer
  service, the Express/WebSocket server and the client hook. Strings are byte strings
  (the UTF-8 text the program handles); a JavaScript number is a value of an abstract
  type \<open>'n\<close>, rendered by the built-ins the environment supplies. What the world does
  (the peripheral's answers, the serial port's faults, the clock, the network) is an
  explicit argument or part of the state, so that every operation is a function.
\<close>

section \<open>The RC522 card reader service (backend/services/rfidReader.js)\<close>

type_synonym byte = "8 word"

text \<open>
  What the vendor driver does during one \<open>readCard\<close>: \<open>reset\<close>, \<open>findCard\<close> or
  \<open>getUid\<close> throws; \<open>findCard\<close> reports no card; \<open>getUid\<close> reports a failed status;
  or \<open>getUid\<close> delivers the bytes it read from the card.
\<close>

datatype hw_read = HwThrows string | NoCard | UidFailed | UidOk "byte list"

text \<open>
  The driver object: the answers the peripheral is going to give, one for each access,
  and the number of accesses made so far.
\<close>

record mfrc522 =
  responses :: "nat \<Rightarrow> hw_read"
  cursor :: nat

record rfid_reader =
  reader :: "mfrc522 option"
  isInitialized :: bool

text \<open>
  The constructor. The argument is \<open>None\<close> when the driver module was not loaded, and
  otherwise what \<open>new MFRC522()\<close> does: it throws or it yields the driver object.
\<close>

definition new_RFIDReader :: "(string + mfrc522) option \<Rightarrow> string + rfid_reader" where
  "new_RFIDReader driver =
     (case driver of
        Some (Inr hw) \<Rightarrow> Inr \<lparr>reader = Some hw, isInitialized = True\<rparr>
      | Some (Inl e) \<Rightarrow> Inl ''RFID hardware not available''
      | None \<Rightarrow> Inl ''RFID hardware not available'')"

text \<open>\<open>Number.prototype.toString(16)\<close> on a non-negative integer.\<close>

definition hex_digit :: "nat \<Rightarrow> char" where
  "hex_digit d = ''0123456789abcdef'' ! d"

fun toString16 :: "nat \<Rightarrow> string" where
  "toString16 n = (if n < 16 then [hex_digit n] else toString16 (n div 16) @ [hex_digit (n mod 16)])"

declare toString16.simps [simp del]

text \<open>\<open>toUpperCase\<close> on the letters of ASCII, which is all a hexadecimal numeral holds.\<close>

definition upper_char :: "char \<Rightarrow> char" where
  "upper_char c =
     (let n = (of_char c :: nat) in if 97 \<le> n \<and> n \<le> 122 then char_of (n - 32) else c)"

definition toUpperCase :: "string \<Rightarrow> string" where
  "toUpperCase s = map upper_char s"

definition padStart :: "nat \<Rightarrow> char \<Rightarrow> string \<Rightarrow> string" where
  "padStart n c s = replicate (n - length s) c @ s"

definition uid_hex :: "byte list \<Rightarrow> string" where
  "uid_hex data = concat (map (\<lambda>b. padStart 2 (CHR ''0'') (toUpperCase (toString16 (unat b)))) data)"

text \<open>
  \<open>readCard\<close>: \<open>Inl\<close> is a rejected promise (or the throw before it), \<open>Inr None\<close> is
  \<open>null\<close>. Every call on an initialised reader makes one access to the peripheral.
\<close>

definition readCard :: "rfid_reader \<Rightarrow> (string + string option) \<times> rfid_reader" where
  "readCard r =
     (case reader r of
        None \<Rightarrow> (Inl ''RFID reader not initialized'', r)
      | Some hw \<Rightarrow>
          if \<not> isInitialized r then (Inl ''RFID reader not initialized'', r)
          else
            let r' = r\<lparr>reader := Some (hw\<lparr>cursor := Suc (cursor hw)\<rparr>)\<rparr> in
            (case responses hw (cursor hw) of
               HwThrows e \<Rightarrow> (Inl e, r')
             | NoCard \<Rightarrow> (Inr None, r')
             | UidFailed \<Rightarrow> (Inr None, r')
             | UidOk data \<Rightarrow> (Inr (Some (uid_hex data)), r')))"

subsection \<open>Continuous card detection\<close>

text \<open>
  The caller's \<open>onCardDetected\<close>: given the calls made to it so far and the \<open>uid\<close> it
  is called with, it returns (\<open>None\<close>) or throws an error.
\<close>

type_synonym callback = "string list \<Rightarrow> string \<Rightarrow> string option"

text \<open>
  The closure of \<open>startContinuousRead\<close>: the caller's callback, the variable
  \<open>lastUid\<close>, the pending \<open>setTimeout\<close> callbacks (the time each is due, in
  milliseconds, and the \<open>uid\<close> it captured, in the order they were set), the clock of the
  event loop, the calls made to the caller's callback, and whether the interval is still
  running.
\<close>

record continuous_read =
  rdr :: rfid_reader
  onCardDetected :: callback
  lastUid :: "string option"
  timeouts :: "(nat \<times> string) list"
  clock :: nat
  detected :: "string list"
  polling :: bool

definition startContinuousRead :: "rfid_reader \<Rightarrow> callback \<Rightarrow> nat \<Rightarrow> string + continuous_read" where
  "startContinuousRead r cb t0 =
     (if \<not> isInitialized r then Inl ''RFID reader not initialized''
      else Inr \<lparr>rdr = r, onCardDetected = cb, lastUid = None, timeouts = [], clock = t0,
                detected = [], polling = True\<rparr>)"

text \<open>A string is truthy when it is not empty; \<open>null\<close> is not.\<close>

definition truthy :: "string option \<Rightarrow> bool" where
  "truthy v = (case v of None \<Rightarrow> False | Some s \<Rightarrow> s \<noteq> [])"

text \<open>
  One run of the interval callback, all of it inside one \<open>try\<close>. A rejected read is
  logged and changes nothing else. For a new card \<open>lastUid\<close> is set first, then the
  callback is called, and only when it has returned is the clearing of \<open>lastUid\<close> set
  for 5000 ms later: an error the callback throws is caught and logged like a failed
  read, with \<open>lastUid\<close> set and no clearing pending.
\<close>

definition poll :: "continuous_read \<Rightarrow> continuous_read" where
  "poll s =
     (if \<not> polling s then s
      else
        (case readCard (rdr s) of
           (Inl e, r') \<Rightarrow> s\<lparr>rdr := r'\<rparr>
         | (Inr uid, r') \<Rightarrow>
             if truthy uid \<and> uid \<noteq> lastUid s
             then
               (case onCardDetected s (detected s) (the uid) of
                  None \<Rightarrow>
                    s\<lparr>rdr := r', lastUid := uid, detected := detected s @ [the uid],
                      timeouts := timeouts s @ [(clock s + 5000, the uid)]\<rparr>
                | Some thrown \<Rightarrow>
                    s\<lparr>rdr := r', lastUid := uid, detected := detected s @ [the uid]\<rparr>)
             else s\<lparr>rdr := r'\<rparr>))"

text \<open>The body of a \<open>setTimeout\<close> callback that captured \<open>uid\<close>.\<close>

definition clear_last :: "string \<Rightarrow> continuous_read \<Rightarrow> continuous_read" where
  "clear_last uid s = (if lastUid s = Some uid then s\<lparr>lastUid := None\<rparr> else s)"

text \<open>
  Time passes: the callbacks whose delay has elapsed run, in the order they were set,
  before anything later does.
\<close>

definition elapse :: "nat \<Rightarrow> continuous_read \<Rightarrow> continuous_read" where
  "elapse d s =
     (let t = clock s + d;
          due = filter (\<lambda>(deadline, uid). deadline \<le> t) (timeouts s);
          rest = filter (\<lambda>(deadline, uid). \<not> deadline \<le> t) (timeouts s)
      in fold (\<lambda>(deadline, uid). clear_last uid) due (s\<lparr>clock := t, timeouts := rest\<rparr>))"

definition stop :: "continuous_read \<Rightarrow> continuous_read" where
  "stop s = s\<lparr>polling := False\<rparr>"

datatype event = Poll | Elapse nat | Stop

fun step :: "event \<Rightarrow> continuous_read \<Rightarrow> continuous_read" where
  "step Poll s = poll s"
| "step (Elapse d) s = elapse d s"
| "step Stop s = stop s"

definition run :: "event list \<Rightarrow> continuous_read \<Rightarrow> continuous_read" where
  "run es s = fold step es s"

section \<open>The thermal printer service (backend/services/printerService.js)\<close>

definition ESC :: byte where "ESC = 0x1B"
definition GS :: byte where "GS = 0x1D"

definition INIT :: "byte list" where "INIT = [ESC, 0x40]"
definition ALIGN_CENTER :: "byte list" where "ALIGN_CENTER = [ESC, 0x61, 0x01]"
definition ALIGN_LEFT :: "byte list" where "ALIGN_LEFT = [ESC, 0x61, 0x00]"
definition BOLD_ON :: "byte list" where "BOLD_ON = [ESC, 0x45, 0x01]"
definition BOLD_OFF :: "byte list" where "BOLD_OFF = [ESC, 0x45, 0x00]"
definition UNDERLINE_ON :: "byte list" where "UNDERLINE_ON = [ESC, 0x2D, 0x01]"
definition UNDERLINE_OFF :: "byte list" where "UNDERLINE_OFF = [ESC, 0x2D, 0x00]"
definition FONT_SIZE_NORMAL :: "byte list" where "FONT_SIZE_NORMAL = [GS, 0x21, 0x00]"
definition FONT_SIZE_DOUBLE :: "byte list" where "FONT_SIZE_DOUBLE = [GS, 0x21, 0x11]"
definition FEED_LINE :: "byte list" where "FEED_LINE = [0x0A]"
definition CUT_PAPER :: "byte list" where "CUT_PAPER = [GS, 0x56, 0x00]"

text \<open>
  The serial port: the buffers written so far, in order (one segment for each write that
  succeeded), the number of writes attempted, and the fault, if any, that the port is
  going to report for each attempt.
\<close>

record serial_port =
  wire :: "byte list list"
  attempts :: nat
  faults :: "nat \<Rightarrow> string option"

definition port_write :: "byte list \<Rightarrow> serial_port \<Rightarrow> (string + unit) \<times> serial_port" where
  "port_write buf sp =
     (case faults sp (attempts sp) of
        Some err \<Rightarrow> (Inl err, sp\<lparr>attempts := Suc (attempts sp)\<rparr>)
      | None \<Rightarrow> (Inr (), sp\<lparr>wire := wire sp @ [buf], attempts := Suc (attempts sp)\<rparr>))"

record printer =
  portPath :: string
  baudRate :: nat
  port :: "serial_port option"
  isConnected :: bool

type_synonym 'a printing = "printer \<Rightarrow> (string + 'a) \<times> printer"

definition sendCommand :: "byte list \<Rightarrow> unit printing" where
  "sendCommand command p =
     (case port p of
        None \<Rightarrow> (Inl ''Printer not connected'', p)
      | Some sp \<Rightarrow>
          if \<not> isConnected p then (Inl ''Printer not connected'', p)
          else (case port_write command sp of (res, sp') \<Rightarrow> (res, p\<lparr>port := Some sp'\<rparr>)))"

text \<open>
  The constructor and \<open>connect\<close>. The argument is what \<open>new SerialPort\<close> does: it
  throws or it yields the port, which opens later. \<open>isConnected\<close> is set by the port's
  events.
\<close>

definition new_PrinterService :: "string \<Rightarrow> nat \<Rightarrow> string + serial_port \<Rightarrow> string + printer" where
  "new_PrinterService path baud opened =
     (case opened of
        Inl e \<Rightarrow> Inl ''Printer hardware not available''
      | Inr sp \<Rightarrow> Inr \<lparr>portPath = path, baudRate = baud, port = Some sp, isConnected = False\<rparr>)"

definition on_open :: "printer \<Rightarrow> printer" where
  "on_open p = snd (sendCommand INIT (p\<lparr>isConnected := True\<rparr>))"

definition on_error :: "printer \<Rightarrow> printer" where
  "on_error p = p\<lparr>isConnected := False\<rparr>"

text \<open>Awaiting one step after the other: the first failure ends the sequence.\<close>

fun in_order :: "unit printing list \<Rightarrow> unit printing" where
  "in_order [] p = (Inr (), p)"
| "in_order (f # fs) p =
     (case f p of
        (Inl e, p') \<Rightarrow> (Inl e, p')
      | (Inr u, p') \<Rightarrow> in_order fs p')"

record options =
  bold :: bool
  center :: bool
  doubleSize :: bool

definition plain :: options where
  "plain = \<lparr>bold = False, center = False, doubleSize = False\<rparr>"

definition utf8 :: "string \<Rightarrow> byte list" where
  "utf8 text = map of_char text"

definition printText :: "string \<Rightarrow> options \<Rightarrow> unit printing" where
  "printText text opts =
     in_order
       ((if center opts then [sendCommand ALIGN_CENTER] else []) @
        (if bold opts then [sendCommand BOLD_ON] else []) @
        (if doubleSize opts then [sendCommand FONT_SIZE_DOUBLE] else []) @
        [sendCommand (utf8 text @ FEED_LINE)] @
        (if bold opts then [sendCommand BOLD_OFF] else []) @
        (if doubleSize opts then [sendCommand FONT_SIZE_NORMAL] else []) @
        (if center opts then [sendCommand ALIGN_LEFT] else []))"

text \<open>\<open>replace(/(\d{4})/g, '$1 ')\<close>: a blank after every run of four digits, left to right.\<close>

definition is_digit :: "char \<Rightarrow> bool" where
  "is_digit c = (48 \<le> (of_char c :: nat) \<and> (of_char c :: nat) \<le> 57)"

fun group4 :: "string \<Rightarrow> string" where
  "group4 [] = []"
| "group4 (c # cs) =
     (if 3 \<le> length cs \<and> list_all is_digit (c # take 3 cs)
      then c # take 3 cs @ '' '' @ group4 (drop 3 cs)
      else c # group4 cs)"

text \<open>\<open>trim\<close>, on the white space of ASCII.\<close>

definition is_space :: "char \<Rightarrow> bool" where
  "is_space c = ((of_char c :: nat) \<in> {9, 10, 11, 12, 13, 32})"

definition trim :: "string \<Rightarrow> string" where
  "trim s = rev (dropWhile is_space (rev (dropWhile is_space s)))"

text \<open>
  The built-ins that render a number and a date: \<open>toFixed(2)\<close> and
  \<open>new Date(timestamp).toLocaleString()\<close>, the latter in the locale of the process.
\<close>

record 'n builtins =
  toFixed2 :: "'n \<Rightarrow> string"
  toLocaleString :: "string \<Rightarrow> string"

text \<open>
  The argument of \<open>printReceipt\<close>. A property the caller left out is \<open>undefined\<close>
  (\<open>None\<close>); the time stamp is the one the server takes.
\<close>

record 'n receipt =
  rc_name :: "string option"
  rc_accountType :: "string option"
  rc_balance :: "'n option"
  rc_cardNumber :: "string option"
  rc_timestamp :: string

text \<open>A string property inside a template literal.\<close>

definition shown :: "string option \<Rightarrow> string" where
  "shown v = (case v of None \<Rightarrow> ''undefined'' | Some s \<Rightarrow> s)"

text \<open>A statement whose argument cannot be evaluated: the \<open>TypeError\<close> is thrown.\<close>

definition throw :: "string \<Rightarrow> unit printing" where
  "throw e p = (Inl e, p)"

definition printReceipt :: "'n builtins \<Rightarrow> 'n receipt \<Rightarrow> unit printing" where
  "printReceipt js data =
     in_order
       [sendCommand INIT,
        printText ''================================'' (plain\<lparr>center := True\<rparr>),
        printText ''MINI ATM RECEIPT'' \<lparr>bold = True, center = True, doubleSize = True\<rparr>,
        printText ''================================'' (plain\<lparr>center := True\<rparr>),
        printText [] plain,
        printText (''Name: '' @ shown (rc_name data)) (plain\<lparr>bold := True\<rparr>),
        printText (''Account: '' @ shown (rc_accountType data)) plain,
        (case rc_cardNumber data of
           None \<Rightarrow> throw ''Cannot read properties of undefined (reading 'replace')''
         | Some cardNumber \<Rightarrow> printText (''Card: '' @ trim (group4 cardNumber)) plain),
        printText [] plain,
        printText ''--------------------------------'' (plain\<lparr>center := True\<rparr>),
        printText ''AVAILABLE BALANCE'' (plain\<lparr>center := True, bold := True\<rparr>),
        (case rc_balance data of
           None \<Rightarrow> throw ''Cannot read properties of undefined (reading 'toFixed')''
         | Some balance \<Rightarrow>
             printText (''PHP '' @ toFixed2 js balance) (plain\<lparr>center := True, doubleSize := True\<rparr>)),
        printText ''--------------------------------'' (plain\<lparr>center := True\<rparr>),
        printText [] plain,
        printText (''Date: '' @ toLocaleString js (rc_timestamp data)) (plain\<lparr>center := True\<rparr>),
        printText [] plain,
        printText ''Thank you for using Mini ATM'' (plain\<lparr>center := True\<rparr>),
        printText ''Raspberry Pi 4B Simulator'' (plain\<lparr>center := True\<rparr>),
        printText ''================================'' (plain\<lparr>center := True\<rparr>),
        printText [] plain,
        printText [] plain,
        printText [] plain,
        sendCommand CUT_PAPER]"

text \<open>What has reached the printer.\<close>

definition printed :: "printer \<Rightarrow> byte list list" where
  "printed p = (case port p of None \<Rightarrow> [] | Some sp \<Rightarrow> wire sp)"

text \<open>
  A printer that is ready: its port is open and reports no fault from now on. A step
  emits the segments \<open>segs\<close> when every run of it that succeeds has sent exactly these
  and every run of it that fails has sent an initial part of them. A step is tracked when
  every run of it on a connected printer leaves the port connected and, where a write it
  attempted reported a fault, that write was its last and its error is the fault.
\<close>

definition ready :: "printer \<Rightarrow> bool" where
  "ready p =
     (isConnected p \<and>
      (case port p of None \<Rightarrow> False | Some sp \<Rightarrow> \<forall>k. attempts sp \<le> k \<longrightarrow> faults sp k = None))"

definition emits :: "unit printing \<Rightarrow> byte list list \<Rightarrow> bool" where
  "emits f segs =
     (\<forall>p res q. f p = (res, q) \<longrightarrow>
        (\<exists>out. printed q = printed p @ out
           \<and> (case res of Inr u \<Rightarrow> out = segs | Inl e \<Rightarrow> prefix out segs)))"

definition tracked :: "unit printing \<Rightarrow> bool" where
  "tracked f =
     (\<forall>p res q sp. f p = (res, q) \<and> port p = Some sp \<and> isConnected p \<longrightarrow>
        (\<exists>sq. port q = Some sq \<and> isConnected q \<and> faults sq = faults sp
           \<and> attempts sp \<le> attempts sq
           \<and> (\<forall>k x. attempts sp \<le> k \<and> k < attempts sq \<and> faults sp k = Some x
                 \<longrightarrow> Suc k = attempts sq \<and> res = Inl x)))"

definition text_segments :: "string \<Rightarrow> options \<Rightarrow> byte list list" where
  "text_segments text opts =
     (if center opts then [ALIGN_CENTER] else []) @
     (if bold opts then [BOLD_ON] else []) @
     (if doubleSize opts then [FONT_SIZE_DOUBLE] else []) @
     [utf8 text @ FEED_LINE] @
     (if bold opts then [BOLD_OFF] else []) @
     (if doubleSize opts then [FONT_SIZE_NORMAL] else []) @
     (if center opts then [ALIGN_LEFT] else [])"

section \<open>The server (backend/server.js)\<close>

record 'n transaction =
  tx_date :: string
  tx_type :: string
  tx_amount :: 'n
  tx_balance :: 'n

record 'n user =
  uid :: string
  cardNumber :: string
  name :: string
  accountType :: string
  balance :: 'n
  transactions :: "'n transaction list"

text \<open>
  The module's variables: the users read from \<open>data/users.json\<close> and the two services,
  \<open>undefined\<close> (\<open>None\<close>) when their construction threw.
\<close>

record 'n server =
  usersDatabase :: "'n user list"
  rfidReader :: "rfid_reader option"
  printerService :: "printer option"

text \<open>Loading the store: a file that cannot be read or parsed leaves no users.\<close>

definition load_users :: "string + 'n user list \<Rightarrow> 'n user list" where
  "load_users file = (case file of Inl e \<Rightarrow> [] | Inr users \<Rightarrow> users)"

text \<open>Each \<open>try\<close> around a constructor: the error is logged and the variable stays unset.\<close>

definition attempt :: "string + 'a \<Rightarrow> 'a option" where
  "attempt made = (case made of Inl e \<Rightarrow> None | Inr service \<Rightarrow> Some service)"

definition startup ::
  "string + 'n user list \<Rightarrow> (string + mfrc522) option \<Rightarrow> string + serial_port \<Rightarrow> 'n server" where
  "startup file driver opened =
     \<lparr>usersDatabase = load_users file,
      rfidReader = attempt (new_RFIDReader driver),
      printerService = attempt (new_PrinterService ''/dev/serial0'' 19200 opened)\<rparr>"

text \<open>
  The body of a \<open>POST /api/print\<close>: a partial account record. A property that is absent
  is \<open>None\<close>; whatever else the body holds (the client also sends \<open>uid\<close>) is kept as
  the list of the other properties, each with the text of its value.
\<close>

record 'n print_request =
  req_name :: "string option"
  req_accountType :: "string option"
  req_balance :: "'n option"
  req_cardNumber :: "string option"
  req_others :: "(string \<times> string) list"

text \<open>The JSON bodies the server answers with, and the answer: \<open>res.json\<close> alone is a 200.\<close>

datatype 'n payload =
    HealthBody string bool bool string
  | UserBody "'n user"
  | ErrorBody string
  | ScanBody "string option" string
  | MockPrintBody bool string "'n print_request"
  | PrintedBody bool string

record 'n response =
  status :: nat
  body :: "'n payload"

definition json :: "'n payload \<Rightarrow> 'n response" where
  "json b = \<lparr>status = 200, body = b\<rparr>"

definition status_json :: "nat \<Rightarrow> 'n payload \<Rightarrow> 'n response" where
  "status_json code b = \<lparr>status = code, body = b\<rparr>"

text \<open>\<open>GET /api/health\<close>; \<open>now\<close> is \<open>new Date().toISOString()\<close>.\<close>

definition get_health :: "'n server \<Rightarrow> string \<Rightarrow> 'n response" where
  "get_health srv now = json (HealthBody ''ok'' (rfidReader srv \<noteq> None) (printerService srv \<noteq> None) now)"

text \<open>\<open>GET /api/user/:uid\<close>. The handler returns the answer and the server it leaves.\<close>

definition get_user :: "'n server \<Rightarrow> string \<Rightarrow> 'n response \<times> 'n server" where
  "get_user srv x =
     (case find (\<lambda>u. uid u = x) (usersDatabase srv) of
        Some user \<Rightarrow> (json (UserBody user), srv)
      | None \<Rightarrow> (status_json 404 (ErrorBody ''User not found''), srv))"

text \<open>\<open>POST /api/rfid/scan\<close>.\<close>

definition post_rfid_scan :: "'n server \<Rightarrow> string \<Rightarrow> 'n response \<times> 'n server" where
  "post_rfid_scan srv now =
     (case rfidReader srv of
        None \<Rightarrow> (status_json 503 (ErrorBody ''RFID reader not available''), srv)
      | Some r \<Rightarrow>
          (case readCard r of
             (Inr x, r') \<Rightarrow> (json (ScanBody x now), srv\<lparr>rfidReader := Some r'\<rparr>)
           | (Inl e, r') \<Rightarrow>
               (status_json 500 (ErrorBody (''Scan failed: '' @ e)), srv\<lparr>rfidReader := Some r'\<rparr>)))"

text \<open>The accesses to the peripheral that the server's reader has made so far.\<close>

definition accesses :: "'n server \<Rightarrow> nat" where
  "accesses srv =
     (case rfidReader srv of
        None \<Rightarrow> 0
      | Some r \<Rightarrow> (case reader r of None \<Rightarrow> 0 | Some hw \<Rightarrow> cursor hw))"

text \<open>\<open>POST /api/print\<close>.\<close>

definition post_print ::
  "'n builtins \<Rightarrow> 'n server \<Rightarrow> 'n print_request \<Rightarrow> string \<Rightarrow> 'n response \<times> 'n server" where
  "post_print js srv req now =
     (case printerService srv of
        None \<Rightarrow> (json (MockPrintBody True ''Mock print (no hardware available)'' req), srv)
      | Some p \<Rightarrow>
          (case printReceipt js
                  \<lparr>rc_name = req_name req, rc_accountType = req_accountType req,
                   rc_balance = req_balance req, rc_cardNumber = req_cardNumber req,
                   rc_timestamp = now\<rparr> p of
             (Inr u, p') \<Rightarrow>
               (json (PrintedBody True ''Receipt printed''), srv\<lparr>printerService := Some p'\<rparr>)
           | (Inl e, p') \<Rightarrow>
               (status_json 500 (ErrorBody (''Print failed: '' @ e)), srv\<lparr>printerService := Some p'\<rparr>)))"

subsection \<open>The socket endpoint \<open>/rfid\<close>\<close>

datatype ws_message =
    Connected string bool bool
  | CardDetected string string

text \<open>
  One client's connection: what the server has sent it, in order, and whether its polling
  interval is running. The reader is the server's, shared by all connections.
\<close>

record connection =
  sent :: "ws_message list"
  rfidInterval :: bool

definition on_connection :: "'n server \<Rightarrow> connection" where
  "on_connection srv =
     \<lparr>sent = [Connected ''WebSocket connection established''
                 (rfidReader srv \<noteq> None) (printerService srv \<noteq> None)],
      rfidInterval = (rfidReader srv \<noteq> None)\<rparr>"

text \<open>One run of the interval callback, at the time stamp \<open>now\<close>; a failed read is silent.\<close>

definition on_interval :: "string \<Rightarrow> 'n server \<times> connection \<Rightarrow> 'n server \<times> connection" where
  "on_interval now sc =
     (case sc of (srv, c) \<Rightarrow>
        if \<not> rfidInterval c then (srv, c)
        else
          (case rfidReader srv of
             None \<Rightarrow> (srv, c)
           | Some r \<Rightarrow>
               (case readCard r of
                  (Inr x, r') \<Rightarrow>
                    if truthy x
                    then (srv\<lparr>rfidReader := Some r'\<rparr>, c\<lparr>sent := sent c @ [CardDetected (the x) now]\<rparr>)
                    else (srv\<lparr>rfidReader := Some r'\<rparr>, c)
                | (Inl e, r') \<Rightarrow> (srv\<lparr>rfidReader := Some r'\<rparr>, c))))"

definition on_close :: "connection \<Rightarrow> connection" where
  "on_close c = c\<lparr>rfidInterval := False\<rparr>"

text \<open>A connection that is opened and then polled at each of the given times.\<close>

definition polled :: "'n server \<Rightarrow> string list \<Rightarrow> 'n server \<times> connection" where
  "polled srv nows = fold on_interval nows (srv, on_connection srv)"

section \<open>The client hook (src/hooks/useATMConnection.ts)\<close>

record config =
  BACKEND_URL :: string
  USE_MOCK_DATA :: bool

datatype websocket = WebSocket string

record 'n atm =
  isConnected_h :: bool
  isScanning :: bool
  currentUser :: "'n user option"
  error :: "string option"
  ws :: "websocket option"

definition initial :: "'n atm" where
  "initial = \<lparr>isConnected_h = False, isScanning = False, currentUser = None, error = None, ws = None\<rparr>"

text \<open>The outcome of a \<open>fetch\<close>: it rejects, the response is not \<open>ok\<close>, or the parsed body.\<close>

datatype 'a fetched = Rejected string | NotOk nat | Ok 'a

text \<open>
  What the world does during one operation of the hook: the two loads of the mock users
  an operation can make (its own, and the one inside \<open>fetchUserData\<close>; \<open>Inl\<close> when the
  load throws), the draw of \<open>Math.random\<close> as an index, the answers of the backend, and
  what \<open>new WebSocket\<close> does.
\<close>

record 'n world =
  mockUsers :: "string + 'n user list"
  mockUsersAgain :: "string + 'n user list"
  random :: nat
  scanResponse :: "string option fetched"
  userResponse :: "'n user fetched"
  printResponse :: "unit fetched"
  newWebSocket :: "string + websocket"

text \<open>The \<open>uid\<close> of a scan answer where a string is expected: \<open>null\<close> reads as its name.\<close>

definition as_string :: "string option \<Rightarrow> string" where
  "as_string v = (case v of None \<Rightarrow> ''null'' | Some s \<Rightarrow> s)"

definition fetchUserData ::
  "config \<Rightarrow> string \<Rightarrow> string + 'n user list \<Rightarrow> 'n user fetched \<Rightarrow> 'n atm \<Rightarrow> 'n atm" where
  "fetchUserData cfg x loaded answer s =
     (if USE_MOCK_DATA cfg then
        (case loaded of
           Inl e \<Rightarrow> s\<lparr>error := Some ''Failed to load user data'', currentUser := None\<rparr>
         | Inr users \<Rightarrow>
             (case find (\<lambda>u. uid u = x) users of
                Some user \<Rightarrow> s\<lparr>currentUser := Some user, error := None\<rparr>
              | None \<Rightarrow> s\<lparr>error := Some ''Card not recognized'', currentUser := None\<rparr>))
      else
        (case answer of
           Ok user \<Rightarrow> s\<lparr>currentUser := Some user, error := None\<rparr>
         | NotOk code \<Rightarrow> s\<lparr>error := Some ''Failed to load user data'', currentUser := None\<rparr>
         | Rejected e \<Rightarrow> s\<lparr>error := Some ''Failed to load user data'', currentUser := None\<rparr>))"

definition connect :: "config \<Rightarrow> 'n world \<Rightarrow> 'n atm \<Rightarrow> 'n atm" where
  "connect cfg w s =
     (if USE_MOCK_DATA cfg then s\<lparr>isConnected_h := True, error := None\<rparr>
      else
        (case newWebSocket w of
           Inr websocket \<Rightarrow> s\<lparr>ws := Some websocket\<rparr>
         | Inl e \<Rightarrow>
             s\<lparr>error := Some ''Failed to connect to backend. Using demo mode.'',
               isConnected_h := True\<rparr>))"

definition onopen :: "'n atm \<Rightarrow> 'n atm" where
  "onopen s = s\<lparr>isConnected_h := True, error := None\<rparr>"

text \<open>A message that does not parse is \<open>None\<close>; the error is logged.\<close>

definition onmessage :: "config \<Rightarrow> 'n world \<Rightarrow> ws_message option \<Rightarrow> 'n atm \<Rightarrow> 'n atm" where
  "onmessage cfg w event s =
     (case event of
        Some (CardDetected x stamp) \<Rightarrow> fetchUserData cfg x (mockUsersAgain w) (userResponse w) s
      | Some (Connected m r p) \<Rightarrow> s
      | None \<Rightarrow> s)"

definition onerror :: "'n atm \<Rightarrow> 'n atm" where
  "onerror s = s\<lparr>error := Some ''Connection error. Switching to demo mode.'', isConnected_h := False\<rparr>"

definition onclose :: "'n atm \<Rightarrow> 'n atm" where
  "onclose s = s\<lparr>isConnected_h := False\<rparr>"

definition disconnect :: "'n atm \<Rightarrow> 'n atm" where
  "disconnect s =
     (case ws s of
        Some websocket \<Rightarrow> s\<lparr>ws := None\<rparr>
      | None \<Rightarrow> s)\<lparr>isConnected_h := False, currentUser := None\<rparr>"

definition scanCard :: "config \<Rightarrow> 'n world \<Rightarrow> 'n atm \<Rightarrow> 'n atm" where
  "scanCard cfg w s =
     (let s1 = s\<lparr>isScanning := True, error := None\<rparr>;
          caught = s1\<lparr>error := Some ''Card scan failed. Please try again.''\<rparr>;
          s2 =
            (if USE_MOCK_DATA cfg then
               (case mockUsers w of
                  Inl e \<Rightarrow> caught
                | Inr users \<Rightarrow>
                    if users = [] then caught
                    else fetchUserData cfg (uid (users ! (random w mod length users)))
                           (mockUsersAgain w) (userResponse w) s1)
             else
               (case scanResponse w of
                  Ok x \<Rightarrow> fetchUserData cfg (as_string x) (mockUsersAgain w) (userResponse w) s1
                | NotOk code \<Rightarrow> caught
                | Rejected e \<Rightarrow> caught))
      in s2\<lparr>isScanning := False\<rparr>)"

definition demoLogin :: "config \<Rightarrow> 'n world \<Rightarrow> 'n atm \<Rightarrow> 'n atm" where
  "demoLogin cfg w s =
     (let s1 = s\<lparr>isScanning := True, error := None\<rparr>;
          s2 =
            (case mockUsers w of
               Inl e \<Rightarrow> s1\<lparr>error := Some ''Demo login failed''\<rparr>
             | Inr users \<Rightarrow>
                 (case users of
                    firstUser # others \<Rightarrow>
                      fetchUserData cfg (uid firstUser) (mockUsersAgain w) (userResponse w) s1
                  | [] \<Rightarrow> s1\<lparr>error := Some ''No demo users available''\<rparr>))
      in s2\<lparr>isScanning := False\<rparr>)"

definition printReceipt_h :: "config \<Rightarrow> 'n world \<Rightarrow> 'n atm \<Rightarrow> 'n atm" where
  "printReceipt_h cfg w s =
     (case currentUser s of
        None \<Rightarrow> s\<lparr>error := Some ''No active session''\<rparr>
      | Some user \<Rightarrow>
          if USE_MOCK_DATA cfg then s
          else
            (case printResponse w of
               Ok u \<Rightarrow> s
             | NotOk code \<Rightarrow> s\<lparr>error := Some ''Failed to print receipt''\<rparr>
             | Rejected e \<Rightarrow> s\<lparr>error := Some ''Failed to print receipt''\<rparr>))"

definition logout :: "'n atm \<Rightarrow> 'n atm" where
  "logout s = s\<lparr>currentUser := None, error := None\<rparr>"

text \<open>Every way the state of the hook changes: its operations and the socket's events.\<close>

datatype operation =
    DoConnect | DoDisconnect | DoFetchUserData string | DoScanCard | DoDemoLogin
  | DoPrintReceipt | DoLogout | SocketOpen | SocketMessage "ws_message option"
  | SocketError | SocketClose

fun perform :: "config \<Rightarrow> 'n world \<Rightarrow> operation \<Rightarrow> 'n atm \<Rightarrow> 'n atm" where
  "perform cfg w DoConnect s = connect cfg w s"
| "perform cfg w DoDisconnect s = disconnect s"
| "perform cfg w (DoFetchUserData x) s = fetchUserData cfg x (mockUsersAgain w) (userResponse w) s"
| "perform cfg w DoScanCard s = scanCard cfg w s"
| "perform cfg w DoDemoLogin s = demoLogin cfg w s"
| "perform cfg w DoPrintReceipt s = printReceipt_h cfg w s"
| "perform cfg w DoLogout s = logout s"
| "perform cfg w SocketOpen s = onopen s"
| "perform cfg w (SocketMessage event) s = onmessage cfg w event s"
| "perform cfg w SocketError s = onerror s"
| "perform cfg w SocketClose s = onclose s"

section \<open>Example data\<close>

text \<open>
  The account of the README's examples and a second one, a card that stays on the
  reader, and a server with that reader and no printer.
\<close>

definition juan :: "real user" where
  "juan = \<lparr>uid = ''A1B2C3D4'', cardNumber = ''4532 1234 5678 9012'', name = ''Juan Dela Cruz'',
           accountType = ''Savings'', balance = 15420.50,
           transactions = [\<lparr>tx_date = ''2025-10-20'', tx_type = ''deposit'',
                            tx_amount = 5000, tx_balance = 15420.50\<rparr>]\<rparr>"

definition maria :: "real user" where
  "maria = \<lparr>uid = ''E5F6A7B8'', cardNumber = ''4532 9876 5432 1098'', name = ''Maria Santos'',
            accountType = ''Checking'', balance = 8750.25, transactions = []\<rparr>"

definition held_card :: mfrc522 where
  "held_card = \<lparr>responses = (\<lambda>k. UidOk [0xA1, 0xB2, 0xC3, 0xD4]), cursor = 0\<rparr>"

definition demo_reader :: rfid_reader where
  "demo_reader = \<lparr>reader = Some held_card, isInitialized = True\<rparr>"

text \<open>A reader whose first access fails and whose later ones would read the card.\<close>

definition flaky_server :: "real server" where
  "flaky_server =
     \<lparr>usersDatabase = [juan, maria],
      rfidReader = Some \<lparr>reader = Some \<lparr>responses = (\<lambda>k. if k = 0 then HwThrows ''SPI transfer failed''
                                                    else UidOk [0xA1, 0xB2, 0xC3, 0xD4]),
                                        cursor = 0\<rparr>,
                         isInitialized = True\<rparr>,
      printerService = None\<rparr>"

definition demo_server :: "real server" where
  "demo_server = \<lparr>usersDatabase = [juan, maria], rfidReader = Some demo_reader, printerService = None\<rparr>"

text \<open>
  A printer whose port is open, one whose port reports a fault at its second write, and
  the receipt of the first account. The built-ins are stand-ins that render these values.
\<close>

definition ready_printer :: printer where
  "ready_printer =
     \<lparr>portPath = ''/dev/serial0'', baudRate = 19200,
      port = Some \<lparr>wire = [], attempts = 0, faults = (\<lambda>k. None)\<rparr>, isConnected = True\<rparr>"

definition jammed_printer :: printer where
  "jammed_printer =
     \<lparr>portPath = ''/dev/serial0'', baudRate = 19200,
      port = Some \<lparr>wire = [], attempts = 0, faults = (\<lambda>k. if k = 1 then Some ''EIO'' else None)\<rparr>,
      isConnected = True\<rparr>"

definition demo_builtins :: "real builtins" where
  "demo_builtins = \<lparr>toFixed2 = (\<lambda>x. ''15420.50''), toLocaleString = (\<lambda>t. ''10/21/2025, 10:30:00 AM'')\<rparr>"

definition demo_receipt :: "real receipt" where
  "demo_receipt =
     \<lparr>rc_name = Some ''Juan Dela Cruz'', rc_accountType = Some ''Savings'',
      rc_balance = Some 15420.50, rc_cardNumber = Some ''4532123456789012'',
      rc_timestamp = ''2025-10-21T10:30:00.000Z''\<rparr>"

text \<open>The client in its demo mode, and a world in which the mock users load.\<close>

definition demo_config :: config where
  "demo_config = \<lparr>BACKEND_URL = ''http://localhost:3001'', USE_MOCK_DATA = True\<rparr>"

definition demo_world :: "real world" where
  "demo_world =
     \<lparr>mockUsers = Inr [juan, maria], mockUsersAgain = Inr [juan, maria], random = 1,
      scanResponse = Rejected ''Failed to fetch'', userResponse = Rejected ''Failed to fetch'',
      printResponse = Rejected ''Failed to fetch'', newWebSocket = Inl ''SecurityError''\<rparr>"

text \<open>A callback that always returns, and one that always throws.\<close>

definition listener :: callback where
  "listener calls u = None"

definition failing_listener :: callback where
  "failing_listener calls u = Some ''handler failed''"

text \<open>
  The continuous detection that \<open>startContinuousRead\<close> starts on the demo reader, for
  each of the two callbacks.
\<close>

definition demo_detection :: continuous_read where
  "demo_detection =
     \<lparr>rdr = demo_reader, onCardDetected = listener, lastUid = None, timeouts = [], clock = 0,
      detected = [], polling = True\<rparr>"

definition unheard_detection :: continuous_read where
  "unheard_detection =
     \<lparr>rdr = demo_reader, onCardDetected = failing_listener, lastUid = None, timeouts = [],
      clock = 0, detected = [], polling = True\<rparr>"

text \<open>
  A reader on which a second card is read once, between two reads of the first, and the
  detection started on it.
\<close>

definition two_cards_reader :: rfid_reader where
  "two_cards_reader =
     \<lparr>reader = Some \<lparr>responses = (\<lambda>k. if k = 1 then UidOk [0xE5, 0xF6, 0xA7, 0xB8]
                                       else UidOk [0xA1, 0xB2, 0xC3, 0xD4]),
                      cursor = 0\<rparr>,
      isInitialized = True\<rparr>"

definition two_cards :: continuous_read where
  "two_cards =
     \<lparr>rdr = two_cards_reader, onCardDetected = listener, lastUid = None, timeouts = [],
      clock = 0, detected = [], polling = True\<rparr>"

text \<open>A printer whose port has not opened.\<close>

definition closed_printer :: printer where
  "closed_printer =
     \<lparr>portPath = ''/dev/serial0'', baudRate = 19200,
      port = Some \<lparr>wire = [], attempts = 0, faults = (\<lambda>k. None)\<rparr>, isConnected = False\<rparr>"

section \<open>Properties of the card reader\<close>

lemma unat_byte_less: "unat (b :: byte) < 256"
  using unsigned_less [of b, where 'a = nat] by simp

lemma upper_hex_digit:
  assumes "d < 16"
  shows "upper_char (hex_digit d) = ''0123456789ABCDEF'' ! d"
proof -
  from assms have "d = 0 \<or> d = 1 \<or> d = 2 \<or> d = 3 \<or> d = 4 \<or> d = 5 \<or> d = 6 \<or> d = 7
      \<or> d = 8 \<or> d = 9 \<or> d = 10 \<or> d = 11 \<or> d = 12 \<or> d = 13 \<or> d = 14 \<or> d = 15"
    by arith
  then show ?thesis
    by (elim disjE; simp add: hex_digit_def upper_char_def char_of_eq_iff)
qed

lemma toString16_byte:
  assumes "n < 256"
  shows "padStart 2 (CHR ''0'') (toUpperCase (toString16 n))
       = [''0123456789ABCDEF'' ! (n div 16), ''0123456789ABCDEF'' ! (n mod 16)]"
proof (cases "n < 16")
  case True
  then have "toString16 n = [hex_digit n]"
    by (subst toString16.simps) simp
  with True show ?thesis
    by (simp add: padStart_def toUpperCase_def upper_hex_digit)
next
  case False
  with assms have d: "n div 16 < 16" by (simp add: less_mult_imp_div_less)
  have m: "n mod 16 < 16" by simp
  from False have "n div 16 \<noteq> 0" by (simp add: div_eq_0_iff)
  have "toString16 n = toString16 (n div 16) @ [hex_digit (n mod 16)]"
    using False by (subst toString16.simps) simp
  also have "toString16 (n div 16) = [hex_digit (n div 16)]"
    using d by (subst toString16.simps) simp
  finally have "toString16 n = [hex_digit (n div 16), hex_digit (n mod 16)]" by simp
  then show ?thesis
    using upper_hex_digit [OF d] upper_hex_digit [OF m]
    by (simp add: padStart_def toUpperCase_def)
qed


lemma uid_hex_bytes:
  "uid_hex data
     = concat (map (\<lambda>b. [''0123456789ABCDEF'' ! (unat b div 16),
                           ''0123456789ABCDEF'' ! (unat b mod 16)]) data)"
  by (simp add: uid_hex_def toString16_byte unat_byte_less)

lemma uid_hex_length: "length (uid_hex data) = 2 * length data"
  unfolding uid_hex_bytes by (induction data) simp_all

lemma upper_digit_mem:
  "d < 16 \<Longrightarrow> ''0123456789ABCDEF'' ! d \<in> set ''0123456789ABCDEF''"
  by (rule nth_mem) simp

lemma two_more: "a \<in> S \<Longrightarrow> b \<in> S \<Longrightarrow> X \<subseteq> S \<Longrightarrow> Y = {a, b} \<union> X \<Longrightarrow> Y \<subseteq> S"
  by blast

lemma uid_hex_chars: "set (uid_hex data) \<subseteq> set ''0123456789ABCDEF''"
proof (induction data)
  case Nil
  show ?case by (simp add: uid_hex_bytes)
next
  case (Cons b data)
  have hi: "unat b div 16 < 16"
    using unat_byte_less [of b] by (simp add: less_mult_imp_div_less)
  have lo: "unat b mod 16 < 16" by simp
  have "set (uid_hex (b # data))
      = {''0123456789ABCDEF'' ! (unat b div 16), ''0123456789ABCDEF'' ! (unat b mod 16)}
          \<union> set (uid_hex data)"
    by (simp add: uid_hex_bytes)
  then show ?case
    by (rule two_more [OF upper_digit_mem [OF hi] upper_digit_mem [OF lo] Cons.IH])
qed

lemma readCard_Some:
  assumes "fst (readCard r) = Inr (Some s)"
  shows "\<exists>hw data. reader r = Some hw \<and> isInitialized r
           \<and> responses hw (cursor hw) = UidOk data \<and> s = uid_hex data"
  using assms
  by (auto simp: readCard_def Let_def split: option.splits if_splits hw_read.splits)

text \<open>
  C9. Every string that \<open>readCard\<close> resolves to is the upper-case hexadecimal numeral of
  the bytes the card delivered: two characters for each byte, the high digit first (a
  zero for a byte below 16), so its length is twice the number of bytes and even.
\<close>

theorem readCard_uid_is_hex:
  assumes "fst (readCard r) = Inr (Some s)"
  shows "\<exists>hw data. reader r = Some hw \<and> responses hw (cursor hw) = UidOk data
           \<and> s = concat (map (\<lambda>b. [''0123456789ABCDEF'' ! (unat b div 16),
                                       ''0123456789ABCDEF'' ! (unat b mod 16)]) data)
           \<and> length s = 2 * length data \<and> even (length s)
           \<and> set s \<subseteq> set ''0123456789ABCDEF''"
proof -
  from readCard_Some [OF assms] obtain hw data where
    h: "reader r = Some hw" "responses hw (cursor hw) = UidOk data" "s = uid_hex data"
    by blast
  have "length s = 2 * length data" using h(3) by (simp add: uid_hex_length)
  moreover have "set s \<subseteq> set ''0123456789ABCDEF''" using h(3) uid_hex_chars by simp
  moreover have "s = concat (map (\<lambda>b. [''0123456789ABCDEF'' ! (unat b div 16),
                                       ''0123456789ABCDEF'' ! (unat b mod 16)]) data)"
    using h(3) uid_hex_bytes by simp
  ultimately show ?thesis using h(1,2) by auto
qed

theorem readCard_uid_is_hex_witness:
  "fst (readCard \<lparr>reader = Some \<lparr>responses = (\<lambda>k. UidOk [0xA1, 0x0B, 0x00, 0xFF]), cursor = 0\<rparr>,
                  isInitialized = True\<rparr>) = Inr (Some ''A10B00FF'')
   \<and> length ''A10B00FF'' = 2 * length [0xA1, 0x0B, 0x00, 0xFF :: byte]
   \<and> set ''A10B00FF'' \<subseteq> set ''0123456789ABCDEF''"
proof -
  let ?r = "\<lparr>reader = Some \<lparr>responses = (\<lambda>k. UidOk [0xA1, 0x0B, 0x00, 0xFF]), cursor = 0\<rparr>,
             isInitialized = True\<rparr>"
  have u: "uid_hex [0xA1, 0x0B, 0x00, 0xFF] = ''A10B00FF''"
    by (simp add: uid_hex_bytes)
  have h: "fst (readCard ?r) = Inr (Some ''A10B00FF'')"
    by (simp add: readCard_def u)
  from readCard_uid_is_hex [OF h] show ?thesis
    using h by auto
qed

section \<open>Properties of the server\<close>

lemma readCard_absent:
  assumes "reader r = Some hw" "isInitialized r"
    and "responses hw (cursor hw) = NoCard \<or> responses hw (cursor hw) = UidFailed"
  shows "fst (readCard r) = Inr None"
  using assms by (auto simp: readCard_def Let_def)

text \<open>
  C10. On an initialised reader, when \<open>findCard\<close> reports no card or \<open>getUid\<close> reports a
  failed status, \<open>readCard\<close> resolves to \<open>null\<close> and raises nothing, and the scan
  endpoint answers 200 with \<open>{uid: null, timestamp}\<close>.
\<close>

theorem scan_without_card:
  assumes "rfidReader srv = Some r" "reader r = Some hw" "isInitialized r"
    and "responses hw (cursor hw) = NoCard \<or> responses hw (cursor hw) = UidFailed"
  shows "fst (readCard r) = Inr None
       \<and> fst (post_rfid_scan srv now) = \<lparr>status = 200, body = ScanBody None now\<rparr>"
proof -
  have a: "fst (readCard r) = Inr None"
    using assms(2-4) by (rule readCard_absent)
  then obtain r' where "readCard r = (Inr None, r')"
    by (cases "readCard r") simp
  with assms(1) a show ?thesis
    by (simp add: post_rfid_scan_def json_def)
qed

theorem scan_without_card_witness:
  "fst (readCard \<lparr>reader = Some \<lparr>responses = (\<lambda>k. NoCard), cursor = 0\<rparr>, isInitialized = True\<rparr>)
     = Inr None
   \<and> fst (post_rfid_scan
        \<lparr>usersDatabase = ([] :: nat user list),
         rfidReader = Some \<lparr>reader = Some \<lparr>responses = (\<lambda>k. NoCard), cursor = 0\<rparr>,
                            isInitialized = True\<rparr>,
         printerService = None\<rparr> ''2025-10-21T10:30:00.000Z'')
     = \<lparr>status = 200, body = ScanBody None ''2025-10-21T10:30:00.000Z''\<rparr>"
  using scan_without_card
    [of "\<lparr>usersDatabase = ([] :: nat user list),
         rfidReader = Some \<lparr>reader = Some \<lparr>responses = (\<lambda>k. NoCard), cursor = 0\<rparr>,
                            isInitialized = True\<rparr>,
         printerService = None\<rparr>"
        "\<lparr>reader = Some \<lparr>responses = (\<lambda>k. NoCard), cursor = 0\<rparr>, isInitialized = True\<rparr>"
        "\<lparr>responses = (\<lambda>k. NoCard), cursor = 0\<rparr>" "''2025-10-21T10:30:00.000Z''"]
  by simp

text \<open>The accesses to the peripheral that the server's reader has made.\<close>

lemma readCard_cursor:
  assumes "reader r = Some hw"
  shows "\<exists>hw'. reader (snd (readCard r)) = Some hw'
           \<and> cursor hw' = (if isInitialized r then Suc (cursor hw) else cursor hw)
           \<and> responses hw' = responses hw"
  using assms by (auto simp: readCard_def Let_def split: hw_read.splits)

lemma post_rfid_scan_cases:
  obtains
    (absent) "rfidReader srv = None"
      "post_rfid_scan srv now
         = (\<lparr>status = 503, body = ErrorBody ''RFID reader not available''\<rparr>, srv)"
  | (read) r v where "rfidReader srv = Some r" "fst (readCard r) = Inr v"
      "post_rfid_scan srv now
         = (\<lparr>status = 200, body = ScanBody v now\<rparr>, srv\<lparr>rfidReader := Some (snd (readCard r))\<rparr>)"
  | (raised) r err where "rfidReader srv = Some r" "fst (readCard r) = Inl err"
      "post_rfid_scan srv now
         = (\<lparr>status = 500, body = ErrorBody (''Scan failed: '' @ err)\<rparr>,
            srv\<lparr>rfidReader := Some (snd (readCard r))\<rparr>)"
proof (cases "rfidReader srv")
  case None
  then show ?thesis using absent by (simp add: post_rfid_scan_def status_json_def)
next
  case (Some r)
  obtain res r' where rc: "readCard r = (res, r')" by (cases "readCard r")
  show ?thesis
  proof (cases res)
    case (Inl err)
    with Some rc show ?thesis using raised [of r err]
      by (simp add: post_rfid_scan_def status_json_def)
  next
    case (Inr v)
    with Some rc show ?thesis using read [of r v]
      by (simp add: post_rfid_scan_def json_def)
  qed
qed

lemma accesses_scan: "accesses (snd (post_rfid_scan srv now)) \<le> Suc (accesses srv)"
proof (cases "rfidReader srv")
  case None
  then show ?thesis by (simp add: post_rfid_scan_def accesses_def)
next
  case (Some r)
  obtain res r' where rc: "readCard r = (res, r')" by (cases "readCard r")
  have srv': "rfidReader (snd (post_rfid_scan srv now)) = Some r'"
    using Some rc by (cases res) (simp_all add: post_rfid_scan_def)
  show ?thesis
  proof (cases "reader r")
    case None
    with rc have "r' = r" by (simp add: readCard_def)
    with None Some srv' show ?thesis by (simp add: accesses_def)
  next
    case (Some hw)
    from readCard_cursor [OF Some] rc obtain hw' where
      "reader r' = Some hw'" "cursor hw' \<le> Suc (cursor hw)"
      by (auto split: if_splits)
    with Some \<open>rfidReader srv = Some r\<close> srv' show ?thesis by (simp add: accesses_def)
  qed
qed

text \<open>
  C5. The scan endpoint answers \<open>{uid, timestamp}\<close> exactly when the reader exists and
  its read succeeds, 503 with an error body exactly when the reader is absent, and 500
  with an error body, which carries the message of the error, exactly when the read
  raises. The request makes at most one access to the peripheral: nothing is retried.
\<close>

theorem post_rfid_scan_outcomes:
  "(fst (post_rfid_scan srv now) = \<lparr>status = 200, body = ScanBody x now\<rparr>
      \<longleftrightarrow> (\<exists>r. rfidReader srv = Some r \<and> fst (readCard r) = Inr x))
   \<and> ((\<exists>msg. fst (post_rfid_scan srv now) = \<lparr>status = 503, body = ErrorBody msg\<rparr>)
      \<longleftrightarrow> rfidReader srv = None)
   \<and> (status (fst (post_rfid_scan srv now)) = 503 \<longleftrightarrow> rfidReader srv = None)
   \<and> (fst (post_rfid_scan srv now) = \<lparr>status = 500, body = ErrorBody (''Scan failed: '' @ e)\<rparr>
      \<longleftrightarrow> (\<exists>r. rfidReader srv = Some r \<and> fst (readCard r) = Inl e))
   \<and> (status (fst (post_rfid_scan srv now)) = 500
      \<longleftrightarrow> (\<exists>r err. rfidReader srv = Some r \<and> fst (readCard r) = Inl err))
   \<and> accesses (snd (post_rfid_scan srv now)) \<le> Suc (accesses srv)"
proof -
  have "(fst (post_rfid_scan srv now) = \<lparr>status = 200, body = ScanBody x now\<rparr>
      \<longleftrightarrow> (\<exists>r. rfidReader srv = Some r \<and> fst (readCard r) = Inr x))
   \<and> ((\<exists>msg. fst (post_rfid_scan srv now) = \<lparr>status = 503, body = ErrorBody msg\<rparr>)
      \<longleftrightarrow> rfidReader srv = None)
   \<and> (status (fst (post_rfid_scan srv now)) = 503 \<longleftrightarrow> rfidReader srv = None)
   \<and> (fst (post_rfid_scan srv now) = \<lparr>status = 500, body = ErrorBody (''Scan failed: '' @ e)\<rparr>
      \<longleftrightarrow> (\<exists>r. rfidReader srv = Some r \<and> fst (readCard r) = Inl e))
   \<and> (status (fst (post_rfid_scan srv now)) = 500
      \<longleftrightarrow> (\<exists>r err. rfidReader srv = Some r \<and> fst (readCard r) = Inl err))"
  proof (cases rule: post_rfid_scan_cases [where srv = srv and now = now])
    case absent
    show ?thesis unfolding absent(2) using absent(1) by simp
  next
    case (read r v)
    show ?thesis unfolding read(3) using read(1,2) by auto
  next
    case (raised r err)
    show ?thesis unfolding raised(3) using raised(1,2) by auto
  qed
  with accesses_scan [of srv now] show ?thesis by blast
qed


theorem post_rfid_scan_outcomes_witness:
  "fst (post_rfid_scan flaky_server ''2025-10-21T10:30:00.000Z'')
     = \<lparr>status = 500, body = ErrorBody ''Scan failed: SPI transfer failed''\<rparr>
   \<and> accesses flaky_server = 0
   \<and> accesses (snd (post_rfid_scan flaky_server ''2025-10-21T10:30:00.000Z'')) = 1"
proof -
  have r: "\<exists>r. rfidReader flaky_server = Some r \<and> fst (readCard r) = Inl ''SPI transfer failed''"
    by (simp add: flaky_server_def readCard_def)
  have a: "accesses flaky_server = 0"
    by (simp add: accesses_def flaky_server_def)
  have b: "accesses (snd (post_rfid_scan flaky_server ''2025-10-21T10:30:00.000Z'')) \<noteq> 0"
    by (simp add: accesses_def post_rfid_scan_def flaky_server_def readCard_def)
  from post_rfid_scan_outcomes
         [of flaky_server "''2025-10-21T10:30:00.000Z''" None "''SPI transfer failed''"] r
  have "fst (post_rfid_scan flaky_server ''2025-10-21T10:30:00.000Z'')
          = \<lparr>status = 500, body = ErrorBody ''Scan failed: SPI transfer failed''\<rparr>"
    and "accesses (snd (post_rfid_scan flaky_server ''2025-10-21T10:30:00.000Z''))
          \<le> Suc (accesses flaky_server)"
    by simp_all
  with a b show ?thesis by simp
qed

lemma find_first_with_uid:
  assumes "u \<in> set users"
  shows "\<exists>r. find (\<lambda>v. uid v = uid u) users = Some r \<and> r \<in> set users \<and> uid r = uid u"
proof (cases "find (\<lambda>v. uid v = uid u) users")
  case None
  with assms show ?thesis by (auto simp: find_None_iff)
next
  case (Some r)
  then show ?thesis by (auto simp: find_Some_iff)
qed

lemma same_uid_same_user:
  assumes "distinct (map uid users)" "r \<in> set users" "u \<in> set users" "uid r = uid u"
  shows "r = u"
  using assms by (meson distinct_map inj_onD)

text \<open>
  C1. For the \<open>uid\<close> of any record of the store the lookup answers 200 with a stored
  record of that \<open>uid\<close> (the record itself, the \<open>uid\<close>s of the store being distinct); for
  a string that is the \<open>uid\<close> of no record it answers 404 with
  \<open>{error: "User not found"}\<close>; and the server is left as it was.
\<close>

theorem get_user_resolves:
  "(\<forall>u \<in> set (usersDatabase srv).
       \<exists>r. fst (get_user srv (uid u)) = \<lparr>status = 200, body = UserBody r\<rparr>
          \<and> r \<in> set (usersDatabase srv) \<and> uid r = uid u
          \<and> (distinct (map uid (usersDatabase srv)) \<longrightarrow> r = u))
   \<and> (x \<notin> uid ` set (usersDatabase srv)
        \<longrightarrow> fst (get_user srv x) = \<lparr>status = 404, body = ErrorBody ''User not found''\<rparr>)
   \<and> snd (get_user srv y) = srv"
proof (intro conjI ballI impI)
  fix u assume u: "u \<in> set (usersDatabase srv)"
  from find_first_with_uid [OF u] obtain r where
    r: "find (\<lambda>v. uid v = uid u) (usersDatabase srv) = Some r"
       "r \<in> set (usersDatabase srv)" "uid r = uid u"
    by blast
  have "fst (get_user srv (uid u)) = \<lparr>status = 200, body = UserBody r\<rparr>"
    using r(1) by (simp add: get_user_def json_def)
  moreover have "distinct (map uid (usersDatabase srv)) \<longrightarrow> r = u"
    using same_uid_same_user [OF _ r(2) u r(3)] by blast
  ultimately show "\<exists>r. fst (get_user srv (uid u)) = \<lparr>status = 200, body = UserBody r\<rparr>
          \<and> r \<in> set (usersDatabase srv) \<and> uid r = uid u
          \<and> (distinct (map uid (usersDatabase srv)) \<longrightarrow> r = u)"
    using r(2,3) by blast
next
  assume "x \<notin> uid ` set (usersDatabase srv)"
  then have "find (\<lambda>v. uid v = x) (usersDatabase srv) = None"
    by (auto simp: find_None_iff)
  then show "fst (get_user srv x) = \<lparr>status = 404, body = ErrorBody ''User not found''\<rparr>"
    by (simp add: get_user_def status_json_def)
next
  show "snd (get_user srv y) = srv"
    by (simp add: get_user_def split: option.split)
qed

theorem get_user_resolves_witness:
  "fst (get_user demo_server ''A1B2C3D4'') = \<lparr>status = 200, body = UserBody juan\<rparr>
   \<and> fst (get_user demo_server ''ZZZZZZZZ'') = \<lparr>status = 404, body = ErrorBody ''User not found''\<rparr>
   \<and> snd (get_user demo_server ''ZZZZZZZZ'') = demo_server"
proof -
  have db: "usersDatabase demo_server = [juan, maria]" by (simp add: demo_server_def)
  have ids: "uid juan = ''A1B2C3D4''" "uid maria = ''E5F6A7B8''"
    by (simp_all add: juan_def maria_def)
  have d: "distinct (map uid (usersDatabase demo_server))" by (simp add: db ids)
  have n: "''ZZZZZZZZ'' \<notin> uid ` set (usersDatabase demo_server)" by (simp add: db ids)
  have j: "juan \<in> set (usersDatabase demo_server)" by (simp add: db)
  from get_user_resolves [of demo_server "''ZZZZZZZZ''" "''ZZZZZZZZ''"] d n j ids(1)
  show ?thesis by fastforce
qed

text \<open>
  C6. Without a printer service, \<open>POST /api/print\<close> answers 200 with \<open>success: true\<close>, a
  message that begins \<open>Mock print\<close> and, as \<open>data\<close>, the body it was sent; the server is
  left as it was.
\<close>

theorem post_print_without_printer:
  assumes "printerService srv = None"
  shows "\<exists>msg. post_print js srv req now
               = (\<lparr>status = 200, body = MockPrintBody True msg req\<rparr>, srv)
             \<and> take 10 msg = ''Mock print''"
  using assms by (simp add: post_print_def json_def)

theorem post_print_without_printer_witness:
  "printerService demo_server = None
   \<and> (\<exists>msg. post_print \<lparr>toFixed2 = (\<lambda>n. ''1000.00''), toLocaleString = (\<lambda>t. t)\<rparr> demo_server
               \<lparr>req_name = Some ''Test User'', req_accountType = Some ''Savings'',
                req_balance = Some 1000, req_cardNumber = Some ''1234 5678 9012 3456'',
                req_others = [(''uid'', ''A1B2C3D4'')]\<rparr> ''2025-10-21T10:30:00.000Z''
             = (\<lparr>status = 200,
                 body = MockPrintBody True msg
                   \<lparr>req_name = Some ''Test User'', req_accountType = Some ''Savings'',
                    req_balance = Some 1000, req_cardNumber = Some ''1234 5678 9012 3456'',
                    req_others = [(''uid'', ''A1B2C3D4'')]\<rparr>\<rparr>, demo_server)
           \<and> take 10 msg = ''Mock print'')"
proof -
  have h: "printerService demo_server = None" by (simp add: demo_server_def)
  from post_print_without_printer [OF h] h show ?thesis by blast
qed

text \<open>
  C7. Whatever the two constructors do at start-up, the server starts. Its health answer
  is 200, and each flag of it is true exactly when the constructor of that service
  returned. Users are looked up as on a server with both services; with no reader a scan
  is answered 503, and with no printer a print is answered by the mock.
\<close>

theorem startup_tolerates_absent_hardware:
  "get_health (startup file driver opened) now
     = \<lparr>status = 200,
        body = HealthBody ''ok'' (\<exists>r. new_RFIDReader driver = Inr r)
                 (\<exists>p. new_PrinterService ''/dev/serial0'' 19200 opened = Inr p) now\<rparr>
   \<and> fst (get_user (startup file driver opened) x) = fst (get_user (startup file driver' opened') x)
   \<and> ((\<exists>e. new_RFIDReader driver = Inl e)
        \<longrightarrow> status (fst (post_rfid_scan (startup file driver opened) now)) = 503)
   \<and> ((\<exists>e. new_PrinterService ''/dev/serial0'' 19200 opened = Inl e)
        \<longrightarrow> status (fst (post_print js (startup file driver opened) req now)) = 200)"
proof (intro conjI impI)
  show "get_health (startup file driver opened) now
     = \<lparr>status = 200,
        body = HealthBody ''ok'' (\<exists>r. new_RFIDReader driver = Inr r)
                 (\<exists>p. new_PrinterService ''/dev/serial0'' 19200 opened = Inr p) now\<rparr>"
    by (cases "new_RFIDReader driver"; cases "new_PrinterService ''/dev/serial0'' 19200 opened")
       (simp_all add: get_health_def startup_def attempt_def json_def)
next
  show "fst (get_user (startup file driver opened) x) = fst (get_user (startup file driver' opened') x)"
    by (simp add: get_user_def startup_def split: option.split)
next
  assume "\<exists>e. new_RFIDReader driver = Inl e"
  then show "status (fst (post_rfid_scan (startup file driver opened) now)) = 503"
    by (auto simp: post_rfid_scan_def startup_def attempt_def status_json_def)
next
  assume "\<exists>e. new_PrinterService ''/dev/serial0'' 19200 opened = Inl e"
  then show "status (fst (post_print js (startup file driver opened) req now)) = 200"
    by (auto simp: post_print_def startup_def attempt_def json_def)
qed

theorem startup_tolerates_absent_hardware_witness:
  "get_health (startup (Inr [juan, maria]) None (Inl ''No such file or directory''))
      ''2025-10-21T10:30:00.000Z''
     = \<lparr>status = 200, body = HealthBody ''ok'' False False ''2025-10-21T10:30:00.000Z''\<rparr>
   \<and> status (fst (post_rfid_scan (startup (Inr [juan, maria]) None
        (Inl ''No such file or directory'')) ''2025-10-21T10:30:00.000Z'')) = 503
   \<and> fst (get_user (startup (Inr [juan, maria]) None (Inl ''No such file or directory''))
        ''A1B2C3D4'')
     = fst (get_user (startup (Inr [juan, maria]) (Some (Inr held_card))
        (Inr \<lparr>wire = [], attempts = 0, faults = (\<lambda>k. None)\<rparr>)) ''A1B2C3D4'')"
proof -
  have r: "\<exists>e. new_RFIDReader None = Inl e" by (simp add: new_RFIDReader_def)
  have nr: "\<not> (\<exists>r. new_RFIDReader None = Inr r)" by (simp add: new_RFIDReader_def)
  have np: "\<not> (\<exists>p. new_PrinterService ''/dev/serial0'' 19200 (Inl ''No such file or directory'') = Inr p)"
    by (simp add: new_PrinterService_def)
  from startup_tolerates_absent_hardware
         [of "Inr [juan, maria]" None "Inl ''No such file or directory''" "''2025-10-21T10:30:00.000Z''"
             "''A1B2C3D4''" "Some (Inr held_card)" "Inr \<lparr>wire = [], attempts = 0, faults = (\<lambda>k. None)\<rparr>"]
       r nr np
  show ?thesis by simp
qed

section \<open>Properties of the printer\<close>

lemma sendCommand_emits: "emits (sendCommand c) [c]"
  by (auto simp: emits_def sendCommand_def port_write_def printed_def
      split: option.splits if_splits)

lemma sendCommand_fails: "sendCommand c p = (Inl e, q) \<Longrightarrow> printed q = printed p"
  by (auto simp: sendCommand_def port_write_def printed_def split: option.splits if_splits)

lemma throw_emits: "emits (throw e) segs"
  by (simp add: emits_def throw_def)

lemma in_order_emits:
  "list_all2 emits fs ss \<Longrightarrow> emits (in_order fs) (concat ss)"
proof (induction fs ss rule: list_all2_induct)
  case Nil
  show ?case by (simp add: emits_def)
next
  case (Cons f fs segs ss)
  show ?case
    unfolding emits_def
  proof (intro allI impI)
    fix p res q assume run: "in_order (f # fs) p = (res, q)"
    obtain r1 p1 where f: "f p = (r1, p1)" by (cases "f p")
    from Cons.hyps(1) f obtain o1 where
      o1: "printed p1 = printed p @ o1" "case r1 of Inr u \<Rightarrow> o1 = segs | Inl e \<Rightarrow> prefix o1 segs"
      unfolding emits_def by blast
    show "\<exists>out. printed q = printed p @ out
            \<and> (case res of Inr u \<Rightarrow> out = concat (segs # ss) | Inl e \<Rightarrow> prefix out (concat (segs # ss)))"
    proof (cases r1)
      case (Inl e)
      with run f have "res = Inl e" "q = p1" by simp_all
      with o1 Inl show ?thesis by (auto intro: prefix_prefix)
    next
      case (Inr u)
      with run f have rest: "in_order fs p1 = (res, q)" by simp
      from Cons.IH rest obtain o2 where
        o2: "printed q = printed p1 @ o2"
            "case res of Inr u \<Rightarrow> o2 = concat ss | Inl e \<Rightarrow> prefix o2 (concat ss)"
        unfolding emits_def by blast
      from o1 Inr have "o1 = segs" by simp
      with o1(1) o2 show ?thesis
        by (intro exI [of _ "segs @ o2"]) (simp split: sum.splits)
    qed
  qed
qed

lemma printText_emits: "emits (printText text opts) (text_segments text opts)"
proof -
  have "list_all2 emits
      ((if center opts then [sendCommand ALIGN_CENTER] else []) @
       (if bold opts then [sendCommand BOLD_ON] else []) @
       (if doubleSize opts then [sendCommand FONT_SIZE_DOUBLE] else []) @
       [sendCommand (utf8 text @ FEED_LINE)] @
       (if bold opts then [sendCommand BOLD_OFF] else []) @
       (if doubleSize opts then [sendCommand FONT_SIZE_NORMAL] else []) @
       (if center opts then [sendCommand ALIGN_LEFT] else []))
      (map (\<lambda>c. [c]) (text_segments text opts))"
    by (simp add: text_segments_def sendCommand_emits)
  from in_order_emits [OF this] show ?thesis
    by (simp add: printText_def concat_map_singleton)
qed

lemma in_order_append:
  "in_order (fs @ gs) p
     = (case in_order fs p of (Inl e, p') \<Rightarrow> (Inl e, p') | (Inr u, p') \<Rightarrow> in_order gs p')"
  by (induction fs arbitrary: p) (auto split: prod.splits sum.splits)

lemma then_last_emits:
  assumes "emits (in_order fs) front"
  shows "emits (in_order (fs @ [sendCommand c])) (front @ [c])"
    and "in_order (fs @ [sendCommand c]) p = (Inl e, q)
          \<Longrightarrow> \<exists>out. printed q = printed p @ out \<and> strict_prefix out (front @ [c])"
proof -
  have l: "list_all2 emits [in_order fs, sendCommand c] [front, [c]]"
    using assms by (simp add: sendCommand_emits)
  have same: "in_order [in_order fs, sendCommand c] = in_order (fs @ [sendCommand c])"
    by (rule ext) (simp add: in_order_append split: prod.splits sum.splits)
  from in_order_emits [OF l] show "emits (in_order (fs @ [sendCommand c])) (front @ [c])"
    by (simp add: same)
  assume run: "in_order (fs @ [sendCommand c]) p = (Inl e, q)"
  obtain r1 p1 where f: "in_order fs p = (r1, p1)" by (cases "in_order fs p")
  from assms f obtain o1 where
    o1: "printed p1 = printed p @ o1" "case r1 of Inr u \<Rightarrow> o1 = front | Inl e \<Rightarrow> prefix o1 front"
    unfolding emits_def by blast
  show "\<exists>out. printed q = printed p @ out \<and> strict_prefix out (front @ [c])"
  proof (cases r1)
    case (Inl e1)
    with run f have "q = p1" by (simp add: in_order_append)
    moreover from o1(2) Inl have "strict_prefix o1 (front @ [c])"
      by (auto simp: strict_prefix_def prefix_def)
    ultimately show ?thesis using o1(1) by blast
  next
    case (Inr u)
    with run f have last: "sendCommand c p1 = (Inl e, q)"
      by (simp add: in_order_append split: prod.splits sum.splits)
    from sendCommand_emits [of c] last obtain o2 where
      o2: "printed q = printed p1 @ o2" "prefix o2 [c]"
      unfolding emits_def by fastforce
    have "o2 = []"
      using sendCommand_fails [OF last] o2(1) by simp
    with o1 o2 Inr show ?thesis
      by (intro exI [of _ front]) (simp add: strict_prefix_def)
  qed
qed


lemma printReceipt_emits:
  "\<exists>mid. emits (printReceipt js d) (INIT # mid @ [CUT_PAPER])
         \<and> (\<forall>p e q. printReceipt js d p = (Inl e, q)
                \<longrightarrow> (\<exists>out. printed q = printed p @ out \<and> strict_prefix out (INIT # mid @ [CUT_PAPER])))"
proof -
  define card where "card =
    (case rc_cardNumber d of
       None \<Rightarrow> []
     | Some cn \<Rightarrow> text_segments (''Card: '' @ trim (group4 cn)) plain)"
  define bal where "bal =
    (case rc_balance d of
       None \<Rightarrow> []
     | Some amount \<Rightarrow>
         text_segments (''PHP '' @ toFixed2 js amount) (plain\<lparr>center := True, doubleSize := True\<rparr>))"
  define mids where "mids =
    [text_segments ''================================'' (plain\<lparr>center := True\<rparr>),
     text_segments ''MINI ATM RECEIPT'' \<lparr>bold = True, center = True, doubleSize = True\<rparr>,
     text_segments ''================================'' (plain\<lparr>center := True\<rparr>),
     text_segments [] plain,
     text_segments (''Name: '' @ shown (rc_name d)) (plain\<lparr>bold := True\<rparr>),
     text_segments (''Account: '' @ shown (rc_accountType d)) plain,
     card,
     text_segments [] plain,
     text_segments ''--------------------------------'' (plain\<lparr>center := True\<rparr>),
     text_segments ''AVAILABLE BALANCE'' (plain\<lparr>center := True, bold := True\<rparr>),
     bal,
     text_segments ''--------------------------------'' (plain\<lparr>center := True\<rparr>),
     text_segments [] plain,
     text_segments (''Date: '' @ toLocaleString js (rc_timestamp d)) (plain\<lparr>center := True\<rparr>),
     text_segments [] plain,
     text_segments ''Thank you for using Mini ATM'' (plain\<lparr>center := True\<rparr>),
     text_segments ''Raspberry Pi 4B Simulator'' (plain\<lparr>center := True\<rparr>),
     text_segments ''================================'' (plain\<lparr>center := True\<rparr>),
     text_segments [] plain,
     text_segments [] plain,
     text_segments [] plain]"
  define front where "front =
    [sendCommand INIT,
     printText ''================================'' (plain\<lparr>center := True\<rparr>),
     printText ''MINI ATM RECEIPT'' \<lparr>bold = True, center = True, doubleSize = True\<rparr>,
     printText ''================================'' (plain\<lparr>center := True\<rparr>),
     printText [] plain,
     printText (''Name: '' @ shown (rc_name d)) (plain\<lparr>bold := True\<rparr>),
     printText (''Account: '' @ shown (rc_accountType d)) plain,
     (case rc_cardNumber d of
        None \<Rightarrow> throw ''Cannot read properties of undefined (reading 'replace')''
      | Some cn \<Rightarrow> printText (''Card: '' @ trim (group4 cn)) plain),
     printText [] plain,
     printText ''--------------------------------'' (plain\<lparr>center := True\<rparr>),
     printText ''AVAILABLE BALANCE'' (plain\<lparr>center := True, bold := True\<rparr>),
     (case rc_balance d of
        None \<Rightarrow> throw ''Cannot read properties of undefined (reading 'toFixed')''
      | Some amount \<Rightarrow>
          printText (''PHP '' @ toFixed2 js amount) (plain\<lparr>center := True, doubleSize := True\<rparr>)),
     printText ''--------------------------------'' (plain\<lparr>center := True\<rparr>),
     printText [] plain,
     printText (''Date: '' @ toLocaleString js (rc_timestamp d)) (plain\<lparr>center := True\<rparr>),
     printText [] plain,
     printText ''Thank you for using Mini ATM'' (plain\<lparr>center := True\<rparr>),
     printText ''Raspberry Pi 4B Simulator'' (plain\<lparr>center := True\<rparr>),
     printText ''================================'' (plain\<lparr>center := True\<rparr>),
     printText [] plain,
     printText [] plain,
     printText [] plain]"
  have c: "emits (case rc_cardNumber d of
             None \<Rightarrow> throw ''Cannot read properties of undefined (reading 'replace')''
           | Some cn \<Rightarrow> printText (''Card: '' @ trim (group4 cn)) plain) card"
    unfolding card_def by (cases "rc_cardNumber d") (simp_all add: throw_emits printText_emits)
  have b: "emits (case rc_balance d of
             None \<Rightarrow> throw ''Cannot read properties of undefined (reading 'toFixed')''
           | Some amount \<Rightarrow>
               printText (''PHP '' @ toFixed2 js amount) (plain\<lparr>center := True, doubleSize := True\<rparr>)) bal"
    unfolding bal_def by (cases "rc_balance d") (simp_all add: throw_emits printText_emits)
  have whole: "printReceipt js d = in_order (front @ [sendCommand CUT_PAPER])"
    unfolding printReceipt_def front_def by simp
  have "emits (in_order front) (concat ([INIT] # mids))"
    unfolding front_def mids_def
    by (rule in_order_emits) (simp add: sendCommand_emits printText_emits c b)
  then have f: "emits (in_order front) (INIT # concat mids)" by simp
  from then_last_emits [OF f, of CUT_PAPER] whole
  have "emits (printReceipt js d) (INIT # concat mids @ [CUT_PAPER])"
    and "\<And>p e q. printReceipt js d p = (Inl e, q)
          \<Longrightarrow> \<exists>out. printed q = printed p @ out \<and> strict_prefix out (INIT # concat mids @ [CUT_PAPER])"
    by simp_all
  then show ?thesis by blast
qed

lemma printReceipt_unconnected:
  assumes "\<not> isConnected p \<or> port p = None"
  shows "printReceipt js d p = (Inl ''Printer not connected'', p)"
proof -
  from assms have "sendCommand INIT p = (Inl ''Printer not connected'', p)"
    by (auto simp: sendCommand_def split: option.splits)
  then show ?thesis by (simp add: printReceipt_def)
qed

lemma the_one_attempt: "a \<le> k \<Longrightarrow> k < Suc a \<Longrightarrow> k = (a :: nat)"
  by arith

lemma sendCommand_tracked: "tracked (sendCommand c)"
  unfolding tracked_def
  by (auto simp: sendCommand_def port_write_def split: option.splits if_splits
      dest: the_one_attempt)

lemma throw_tracked: "tracked (throw e)"
  by (auto simp: tracked_def throw_def)

lemma in_order_tracked:
  assumes "\<forall>f \<in> set fs. tracked f"
  shows "tracked (in_order fs)"
  using assms
proof (induction fs)
  case Nil
  show ?case by (simp add: tracked_def)
next
  case (Cons f fs)
  then have tf: "tracked f" and tr: "tracked (in_order fs)" by simp_all
  show ?case
    unfolding tracked_def
  proof (intro allI impI)
    fix p res q sp
    assume h: "in_order (f # fs) p = (res, q) \<and> port p = Some sp \<and> isConnected p"
    obtain r1 p1 where f: "f p = (r1, p1)" by (cases "f p")
    from tf f h obtain s1 where
      s1: "port p1 = Some s1" "isConnected p1" "faults s1 = faults sp" "attempts sp \<le> attempts s1"
          "\<forall>k x. attempts sp \<le> k \<and> k < attempts s1 \<and> faults sp k = Some x
               \<longrightarrow> Suc k = attempts s1 \<and> r1 = Inl x"
      unfolding tracked_def by blast
    show "\<exists>sq. port q = Some sq \<and> isConnected q \<and> faults sq = faults sp
            \<and> attempts sp \<le> attempts sq
            \<and> (\<forall>k x. attempts sp \<le> k \<and> k < attempts sq \<and> faults sp k = Some x
                  \<longrightarrow> Suc k = attempts sq \<and> res = Inl x)"
    proof (cases r1)
      case (Inl e)
      with h f have "res = r1" "q = p1" by simp_all
      with s1 show ?thesis by blast
    next
      case (Inr u)
      with h f have rest: "in_order fs p1 = (res, q)" by simp
      from tr rest s1(1,2) obtain sq where
        sq: "port q = Some sq" "isConnected q" "faults sq = faults s1" "attempts s1 \<le> attempts sq"
            "\<forall>k x. attempts s1 \<le> k \<and> k < attempts sq \<and> faults s1 k = Some x
                 \<longrightarrow> Suc k = attempts sq \<and> res = Inl x"
        unfolding tracked_def by blast
      have early: "\<not> (attempts sp \<le> k \<and> k < attempts s1 \<and> faults sp k = Some x)" for k x
        using s1(5) Inr by auto
      have "\<forall>k x. attempts sp \<le> k \<and> k < attempts sq \<and> faults sp k = Some x
                  \<longrightarrow> Suc k = attempts sq \<and> res = Inl x"
      proof (intro allI impI)
        fix k x assume k: "attempts sp \<le> k \<and> k < attempts sq \<and> faults sp k = Some x"
        with early [of k x] have "attempts s1 \<le> k" by auto
        with k sq(5) s1(3) show "Suc k = attempts sq \<and> res = Inl x" by auto
      qed
      with sq s1 show ?thesis by auto
    qed
  qed
qed

lemma printText_tracked: "tracked (printText text opts)"
  unfolding printText_def by (rule in_order_tracked) (auto simp: sendCommand_tracked)

lemma printReceipt_tracked: "tracked (printReceipt js d)"
  unfolding printReceipt_def
  by (rule in_order_tracked)
     (auto simp: sendCommand_tracked printText_tracked throw_tracked split: option.splits)

lemma sendCommand_ready:
  assumes "ready p"
  shows "\<exists>q. sendCommand c p = (Inr (), q) \<and> ready q"
proof -
  from assms obtain sp where
    sp: "port p = Some sp" "isConnected p" "\<forall>k. attempts sp \<le> k \<longrightarrow> faults sp k = None"
    by (auto simp: ready_def split: option.splits)
  then have "faults sp (attempts sp) = None" by simp
  with sp show ?thesis
    by (simp add: sendCommand_def port_write_def ready_def)
qed

lemma in_order_ready:
  assumes "\<forall>f \<in> set fs. \<forall>p. ready p \<longrightarrow> (\<exists>q. f p = (Inr (), q) \<and> ready q)" and "ready p"
  shows "\<exists>q. in_order fs p = (Inr (), q) \<and> ready q"
  using assms
proof (induction fs arbitrary: p)
  case Nil
  then show ?case by simp
next
  case (Cons f fs)
  from Cons.prems obtain p' where f: "f p = (Inr (), p')" "ready p'" by auto
  from Cons.IH [OF _ f(2)] Cons.prems(1) obtain q where "in_order fs p' = (Inr (), q)" "ready q"
    by auto
  with f show ?case by simp
qed

lemma printText_ready:
  assumes "ready p"
  shows "\<exists>q. printText text opts p = (Inr (), q) \<and> ready q"
  unfolding printText_def
  by (rule in_order_ready [OF _ assms]) (auto simp: sendCommand_ready)

lemma printReceipt_ready:
  assumes "ready p" "rc_cardNumber d = Some cn" "rc_balance d = Some amount"
  shows "\<exists>q. printReceipt js d p = (Inr (), q) \<and> ready q"
  unfolding printReceipt_def
  by (rule in_order_ready [OF _ assms(1)]) (simp add: sendCommand_ready printText_ready assms(2,3))

text \<open>
  C3, amended. On a printer that is ready, a snapshot that has a card number and a
  balance is printed to the end. Any two runs of \<open>printReceipt\<close> on the same snapshot
  that complete without error send the same sequence of segments; it begins with the
  initialize command and ends with the paper cut. A run on a printer that is not
  connected is rejected at once and sends nothing. On a connected printer, a write that
  reports a fault is the last the run attempts, and the run is rejected with that fault.
  Every run that is rejected has sent a proper initial part of the sequence that the
  runs that complete send.
\<close>

theorem printReceipt_deterministic:
  "(ready p \<and> rc_cardNumber d \<noteq> None \<and> rc_balance d \<noteq> None
      \<longrightarrow> (\<exists>q. printReceipt js d p = (Inr (), q)))
   \<and> (printReceipt js d p1 = (Inr (), q1) \<and> printReceipt js d p2 = (Inr (), q2)
      \<longrightarrow> (\<exists>segs. printed q1 = printed p1 @ segs \<and> printed q2 = printed p2 @ segs
             \<and> segs \<noteq> [] \<and> hd segs = INIT \<and> last segs = CUT_PAPER))
   \<and> (\<not> isConnected p \<or> port p = None
      \<longrightarrow> printReceipt js d p = (Inl ''Printer not connected'', p))
   \<and> (isConnected p \<and> port p = Some sp \<and> printReceipt js d p = (res, q)
      \<longrightarrow> (\<exists>sq. port q = Some sq
             \<and> (\<forall>k x. attempts sp \<le> k \<and> k < attempts sq \<and> faults sp k = Some x
                   \<longrightarrow> Suc k = attempts sq \<and> res = Inl x)))
   \<and> (\<exists>segs. hd segs = INIT \<and> last segs = CUT_PAPER
         \<and> (\<forall>p0 q0. printReceipt js d p0 = (Inr (), q0) \<longrightarrow> printed q0 = printed p0 @ segs)
         \<and> (\<forall>p0 e q0. printReceipt js d p0 = (Inl e, q0)
               \<longrightarrow> (\<exists>out. printed q0 = printed p0 @ out \<and> strict_prefix out segs)))"
proof -
  from printReceipt_emits [of js d] obtain mid where
    em: "emits (printReceipt js d) (INIT # mid @ [CUT_PAPER])"
    and cut: "\<forall>p e q. printReceipt js d p = (Inl e, q)
                \<longrightarrow> (\<exists>out. printed q = printed p @ out \<and> strict_prefix out (INIT # mid @ [CUT_PAPER]))"
    by blast
  have finished: "printed q0 = printed p0 @ (INIT # mid @ [CUT_PAPER])"
    if "printReceipt js d p0 = (Inr (), q0)" for p0 q0
    using em that unfolding emits_def by fastforce
  have 1: "ready p \<and> rc_cardNumber d \<noteq> None \<and> rc_balance d \<noteq> None
      \<longrightarrow> (\<exists>q. printReceipt js d p = (Inr (), q))"
    using printReceipt_ready [of p d _ _ js] by auto
  have 2: "printReceipt js d p1 = (Inr (), q1) \<and> printReceipt js d p2 = (Inr (), q2)
      \<longrightarrow> (\<exists>segs. printed q1 = printed p1 @ segs \<and> printed q2 = printed p2 @ segs
             \<and> segs \<noteq> [] \<and> hd segs = INIT \<and> last segs = CUT_PAPER)"
  proof
    assume "printReceipt js d p1 = (Inr (), q1) \<and> printReceipt js d p2 = (Inr (), q2)"
    then have "printed q1 = printed p1 @ (INIT # mid @ [CUT_PAPER])"
      "printed q2 = printed p2 @ (INIT # mid @ [CUT_PAPER])"
      using finished by simp_all
    then show "\<exists>segs. printed q1 = printed p1 @ segs \<and> printed q2 = printed p2 @ segs
             \<and> segs \<noteq> [] \<and> hd segs = INIT \<and> last segs = CUT_PAPER"
      by (intro exI [of _ "INIT # mid @ [CUT_PAPER]"]) simp
  qed
  have 3: "\<not> isConnected p \<or> port p = None
      \<longrightarrow> printReceipt js d p = (Inl ''Printer not connected'', p)"
    using printReceipt_unconnected by blast
  have 4: "isConnected p \<and> port p = Some sp \<and> printReceipt js d p = (res, q)
      \<longrightarrow> (\<exists>sq. port q = Some sq
             \<and> (\<forall>k x. attempts sp \<le> k \<and> k < attempts sq \<and> faults sp k = Some x
                   \<longrightarrow> Suc k = attempts sq \<and> res = Inl x))"
  proof
    assume "isConnected p \<and> port p = Some sp \<and> printReceipt js d p = (res, q)"
    with printReceipt_tracked [of js d] obtain sq where
      "port q = Some sq"
      "\<forall>k x. attempts sp \<le> k \<and> k < attempts sq \<and> faults sp k = Some x
           \<longrightarrow> Suc k = attempts sq \<and> res = Inl x"
      unfolding tracked_def by blast
    then show "\<exists>sq. port q = Some sq
             \<and> (\<forall>k x. attempts sp \<le> k \<and> k < attempts sq \<and> faults sp k = Some x
                   \<longrightarrow> Suc k = attempts sq \<and> res = Inl x)"
      by blast
  qed
  have 5: "\<exists>segs. hd segs = INIT \<and> last segs = CUT_PAPER
         \<and> (\<forall>p0 q0. printReceipt js d p0 = (Inr (), q0) \<longrightarrow> printed q0 = printed p0 @ segs)
         \<and> (\<forall>p0 e q0. printReceipt js d p0 = (Inl e, q0)
               \<longrightarrow> (\<exists>out. printed q0 = printed p0 @ out \<and> strict_prefix out segs))"
    using finished cut by (intro exI [of _ "INIT # mid @ [CUT_PAPER]"]) simp
  from 1 2 3 4 5 show ?thesis by blast
qed

theorem printReceipt_deterministic_witness:
  "ready ready_printer
   \<and> (\<exists>q. printReceipt demo_builtins demo_receipt ready_printer = (Inr (), q)
          \<and> hd (printed q) = INIT \<and> last (printed q) = CUT_PAPER)
   \<and> printReceipt demo_builtins demo_receipt closed_printer
       = (Inl ''Printer not connected'', closed_printer)"
proof -
  have r: "ready ready_printer" by (simp add: ready_def ready_printer_def)
  have f: "rc_cardNumber demo_receipt \<noteq> None" "rc_balance demo_receipt \<noteq> None"
    by (simp_all add: demo_receipt_def)
  have e: "printed ready_printer = []" by (simp add: printed_def ready_printer_def)
  have c: "\<not> isConnected closed_printer" by (simp add: closed_printer_def)
  from printReceipt_deterministic [of ready_printer demo_receipt demo_builtins] r f
  obtain q where q: "printReceipt demo_builtins demo_receipt ready_printer = (Inr (), q)"
    by blast
  from printReceipt_deterministic [of _ demo_receipt demo_builtins ready_printer q ready_printer q] q
  obtain segs where "printed q = printed ready_printer @ segs" "hd segs = INIT" "last segs = CUT_PAPER"
    by blast
  moreover from printReceipt_deterministic [of closed_printer demo_receipt demo_builtins] c
  have "printReceipt demo_builtins demo_receipt closed_printer
       = (Inl ''Printer not connected'', closed_printer)"
    by blast
  ultimately show ?thesis using e q r by simp
qed

text \<open>
  C3 as stated fails where a write fails: on the port that reports a fault at its second
  write, the run is rejected with that fault after the initialize command alone has been
  sent, so the last segment sent is not the paper cut.
\<close>

theorem printReceipt_jammed:
  "fst (printReceipt demo_builtins demo_receipt jammed_printer) = Inl ''EIO''
   \<and> printed (snd (printReceipt demo_builtins demo_receipt jammed_printer)) = [INIT]
   \<and> last (printed (snd (printReceipt demo_builtins demo_receipt jammed_printer))) \<noteq> CUT_PAPER"
proof -
  have 1: "sendCommand INIT jammed_printer
        = (Inr (), jammed_printer\<lparr>port := Some \<lparr>wire = [INIT], attempts = 1,
             faults = (\<lambda>k. if k = 1 then Some ''EIO'' else None)\<rparr>\<rparr>)"
    by (simp add: sendCommand_def port_write_def jammed_printer_def)
  have 2: "printText ''================================'' (plain\<lparr>center := True\<rparr>)
            (jammed_printer\<lparr>port := Some \<lparr>wire = [INIT], attempts = 1,
               faults = (\<lambda>k. if k = 1 then Some ''EIO'' else None)\<rparr>\<rparr>)
        = (Inl ''EIO'', jammed_printer\<lparr>port := Some \<lparr>wire = [INIT], attempts = 2,
             faults = (\<lambda>k. if k = 1 then Some ''EIO'' else None)\<rparr>\<rparr>)"
    by (simp add: printText_def plain_def sendCommand_def port_write_def jammed_printer_def)
  have "printReceipt demo_builtins demo_receipt jammed_printer
        = (Inl ''EIO'', jammed_printer\<lparr>port := Some \<lparr>wire = [INIT], attempts = 2,
             faults = (\<lambda>k. if k = 1 then Some ''EIO'' else None)\<rparr>\<rparr>)"
    unfolding printReceipt_def by (simp only: in_order.simps 1 2 prod.case sum.case)
  then show ?thesis
    by (simp add: printed_def INIT_def CUT_PAPER_def ESC_def GS_def)
qed

section \<open>Properties of the client hook\<close>

lemma fetchUserData_Some:
  assumes "currentUser (fetchUserData cfg x loaded answer s) = Some u"
  shows "(USE_MOCK_DATA cfg \<and> (\<exists>users. loaded = Inr users \<and> u \<in> set users \<and> uid u = x))
       \<or> (\<not> USE_MOCK_DATA cfg \<and> answer = Ok u)"
proof (cases "USE_MOCK_DATA cfg")
  case True
  with assms obtain users where l: "loaded = Inr users"
    by (cases loaded) (simp_all add: fetchUserData_def)
  with True assms have "find (\<lambda>v. uid v = x) users = Some u"
    by (cases "find (\<lambda>v. uid v = x) users") (simp_all add: fetchUserData_def)
  then have "u \<in> set users \<and> uid u = x"
    by (auto simp: find_Some_iff)
  with True l show ?thesis by simp
next
  case False
  with assms show ?thesis
    by (cases answer) (simp_all add: fetchUserData_def)
qed

lemma fetchUserData_failed:
  assumes "(USE_MOCK_DATA cfg \<and> (\<forall>users. loaded = Inr users \<longrightarrow> x \<notin> uid ` set users))
         \<or> (\<not> USE_MOCK_DATA cfg \<and> (\<forall>user. answer \<noteq> Ok user))"
  shows "currentUser (fetchUserData cfg x loaded answer s) = None"
proof (cases "currentUser (fetchUserData cfg x loaded answer s)")
  case None
  then show ?thesis .
next
  case (Some u)
  from fetchUserData_Some [OF Some] assms show ?thesis by auto
qed

lemma perform_Some:
  assumes "currentUser (perform cfg w a s) = Some u"
  shows "currentUser s = Some u
       \<or> (USE_MOCK_DATA cfg \<and> (\<exists>users. mockUsersAgain w = Inr users \<and> u \<in> set users))
       \<or> (\<not> USE_MOCK_DATA cfg \<and> userResponse w = Ok u)"
proof -
  have fetched: "currentUser (fetchUserData cfg x (mockUsersAgain w) (userResponse w) s') = Some u
      \<Longrightarrow> ?thesis" for x s'
    by (drule fetchUserData_Some) auto
  show ?thesis
  proof (cases a)
    case DoConnect
    with assms show ?thesis
      by (auto simp: connect_def split: if_splits sum.splits)
  next
    case DoDisconnect
    with assms show ?thesis by (simp add: disconnect_def)
  next
    case (DoFetchUserData x)
    with assms fetched show ?thesis by simp
  next
    case DoScanCard
    with assms fetched show ?thesis
      by (auto simp: scanCard_def Let_def split: if_splits sum.splits fetched.splits)
  next
    case DoDemoLogin
    with assms fetched show ?thesis
      by (auto simp: demoLogin_def Let_def split: sum.splits list.splits)
  next
    case DoPrintReceipt
    with assms show ?thesis
      by (auto simp: printReceipt_h_def split: option.splits if_splits fetched.splits)
  next
    case DoLogout
    with assms show ?thesis by (simp add: logout_def)
  next
    case SocketOpen
    with assms show ?thesis by (simp add: onopen_def)
  next
    case (SocketMessage event)
    with assms fetched show ?thesis
      by (auto simp: onmessage_def split: option.splits ws_message.splits)
  next
    case SocketError
    with assms show ?thesis by (simp add: onerror_def)
  next
    case SocketClose
    with assms show ?thesis by (simp add: onclose_def)
  qed
qed

text \<open>
  C8. The session of the hook is one optional account record. A logout and a disconnect
  leave it empty, and so does a lookup that fails (the mock users do not load or none has
  the \<open>uid\<close>; the backend does not answer with a record). A lookup sets it only to the
  record it found. After any operation of the hook or event of its socket the session
  holds the record it held before or a record that a lookup of that operation found, and
  nothing else.
\<close>

theorem session_holds_looked_up_user:
  "currentUser (logout s) = None
   \<and> currentUser (disconnect s) = None
   \<and> ((USE_MOCK_DATA cfg \<and> (\<forall>users. loaded = Inr users \<longrightarrow> x \<notin> uid ` set users))
        \<or> (\<not> USE_MOCK_DATA cfg \<and> (\<forall>user. answer \<noteq> Ok user))
      \<longrightarrow> currentUser (fetchUserData cfg x loaded answer s) = None)
   \<and> (currentUser (fetchUserData cfg x loaded answer s) = Some u
      \<longrightarrow> (USE_MOCK_DATA cfg \<and> (\<exists>users. loaded = Inr users \<and> u \<in> set users \<and> uid u = x))
          \<or> (\<not> USE_MOCK_DATA cfg \<and> answer = Ok u))
   \<and> (currentUser (perform cfg w a s) = Some u
      \<longrightarrow> currentUser s = Some u
          \<or> (USE_MOCK_DATA cfg \<and> (\<exists>users. mockUsersAgain w = Inr users \<and> u \<in> set users))
          \<or> (\<not> USE_MOCK_DATA cfg \<and> userResponse w = Ok u))"
proof (intro conjI impI)
  show "currentUser (logout s) = None" by (simp add: logout_def)
  show "currentUser (disconnect s) = None" by (simp add: disconnect_def)
next
  assume "(USE_MOCK_DATA cfg \<and> (\<forall>users. loaded = Inr users \<longrightarrow> x \<notin> uid ` set users))
        \<or> (\<not> USE_MOCK_DATA cfg \<and> (\<forall>user. answer \<noteq> Ok user))"
  then show "currentUser (fetchUserData cfg x loaded answer s) = None"
    by (rule fetchUserData_failed)
next
  assume "currentUser (fetchUserData cfg x loaded answer s) = Some u"
  then show "(USE_MOCK_DATA cfg \<and> (\<exists>users. loaded = Inr users \<and> u \<in> set users \<and> uid u = x))
          \<or> (\<not> USE_MOCK_DATA cfg \<and> answer = Ok u)"
    by (rule fetchUserData_Some)
next
  assume "currentUser (perform cfg w a s) = Some u"
  then show "currentUser s = Some u
          \<or> (USE_MOCK_DATA cfg \<and> (\<exists>users. mockUsersAgain w = Inr users \<and> u \<in> set users))
          \<or> (\<not> USE_MOCK_DATA cfg \<and> userResponse w = Ok u)"
    by (rule perform_Some)
qed

theorem session_holds_looked_up_user_witness:
  "currentUser (perform demo_config demo_world DoScanCard initial) = Some maria
   \<and> currentUser (logout (perform demo_config demo_world DoScanCard initial)) = None
   \<and> currentUser (disconnect (perform demo_config demo_world DoScanCard initial)) = None
   \<and> currentUser (fetchUserData demo_config ''ZZZZZZZZ'' (Inr [juan, maria]) (Rejected [])
        (perform demo_config demo_world DoScanCard initial)) = None
   \<and> (\<exists>users. mockUsersAgain demo_world = Inr users \<and> maria \<in> set users)"
proof -
  let ?s = "perform demo_config demo_world DoScanCard initial"
  have ids: "uid juan = ''A1B2C3D4''" "uid maria = ''E5F6A7B8''"
    by (simp_all add: juan_def maria_def)
  have m: "USE_MOCK_DATA demo_config" by (simp add: demo_config_def)
  have scan: "currentUser ?s = Some maria"
    by (simp add: scanCard_def fetchUserData_def demo_config_def demo_world_def initial_def ids)
  have none: "currentUser initial \<noteq> Some maria" by (simp add: initial_def)
  have absent: "\<forall>users. Inr [juan, maria] = Inr users \<longrightarrow> ''ZZZZZZZZ'' \<notin> uid ` set users"
    by (simp add: ids)
  from session_holds_looked_up_user
         [of ?s demo_config "Inr [juan, maria]" "''ZZZZZZZZ''" "Rejected []" maria demo_world DoScanCard]
       m absent
  have a: "currentUser (logout ?s) = None" "currentUser (disconnect ?s) = None"
    "currentUser (fetchUserData demo_config ''ZZZZZZZZ'' (Inr [juan, maria]) (Rejected []) ?s) = None"
    by blast+
  from session_holds_looked_up_user
         [of initial demo_config _ _ _ maria demo_world DoScanCard] scan none m
  have "\<exists>users. mockUsersAgain demo_world = Inr users \<and> maria \<in> set users"
    by blast
  with scan a show ?thesis by simp
qed

section \<open>Properties of the continuous detection\<close>

lemma poll_cases:
  obtains
    (still) "detected (poll s) = detected s" "lastUid (poll s) = lastUid s"
      "timeouts (poll s) = timeouts s" "clock (poll s) = clock s" "polling (poll s) = polling s"
      "onCardDetected (poll s) = onCardDetected s"
  | (told) u where "polling s" "fst (readCard (rdr s)) = Inr (Some u)" "u \<noteq> []"
      "lastUid s \<noteq> Some u" "onCardDetected s (detected s) u = None"
      "detected (poll s) = detected s @ [u]" "lastUid (poll s) = Some u"
      "timeouts (poll s) = timeouts s @ [(clock s + 5000, u)]" "clock (poll s) = clock s"
      "polling (poll s) = polling s" "onCardDetected (poll s) = onCardDetected s"
  | (unheard) u thrown where "polling s" "fst (readCard (rdr s)) = Inr (Some u)" "u \<noteq> []"
      "lastUid s \<noteq> Some u" "onCardDetected s (detected s) u = Some thrown"
      "detected (poll s) = detected s @ [u]" "lastUid (poll s) = Some u"
      "timeouts (poll s) = timeouts s" "clock (poll s) = clock s"
      "polling (poll s) = polling s" "onCardDetected (poll s) = onCardDetected s"
proof (cases "polling s")
  case False
  then have "poll s = s" by (simp add: poll_def)
  then show ?thesis using still by simp
next
  case True
  obtain res r' where rc: "readCard (rdr s) = (res, r')" by (cases "readCard (rdr s)")
  show ?thesis
  proof (cases res)
    case (Inl e)
    with True rc have "poll s = s\<lparr>rdr := r'\<rparr>" by (simp add: poll_def)
    then show ?thesis using still by simp
  next
    case (Inr v)
    show ?thesis
    proof (cases "truthy v \<and> v \<noteq> lastUid s")
      case False
      with True rc Inr have "poll s = s\<lparr>rdr := r'\<rparr>" by (auto simp: poll_def)
      then show ?thesis using still by simp
    next
      case yes: True
      then obtain u where u: "v = Some u" "u \<noteq> []"
        by (cases v) (simp_all add: truthy_def)
      have rd: "fst (readCard (rdr s)) = Inr (Some u)" using rc Inr u by simp
      have new: "lastUid s \<noteq> Some u" using yes u by auto
      show ?thesis
      proof (cases "onCardDetected s (detected s) u")
        case None
        with True rc Inr yes u have
          "poll s = s\<lparr>rdr := r', lastUid := Some u, detected := detected s @ [u],
                      timeouts := timeouts s @ [(clock s + 5000, u)]\<rparr>"
          by (simp add: poll_def)
        then show ?thesis using told [of u] True u(2) rd new None by simp
      next
        case (Some thrown)
        with True rc Inr yes u have
          "poll s = s\<lparr>rdr := r', lastUid := Some u, detected := detected s @ [u]\<rparr>"
          by (simp add: poll_def)
        then show ?thesis using unheard [of u thrown] True u(2) rd new Some by simp
      qed
    qed
  qed
qed

lemma fold_clear_last:
  "lastUid (fold (\<lambda>(d, v). clear_last v) ts s)
     = (if \<exists>(d, v) \<in> set ts. lastUid s = Some v then None else lastUid s)
   \<and> detected (fold (\<lambda>(d, v). clear_last v) ts s) = detected s
   \<and> timeouts (fold (\<lambda>(d, v). clear_last v) ts s) = timeouts s
   \<and> clock (fold (\<lambda>(d, v). clear_last v) ts s) = clock s
   \<and> polling (fold (\<lambda>(d, v). clear_last v) ts s) = polling s
   \<and> onCardDetected (fold (\<lambda>(d, v). clear_last v) ts s) = onCardDetected s"
proof (induction ts arbitrary: s)
  case Nil
  show ?case by simp
next
  case (Cons t ts)
  obtain d v where t: "t = (d, v)" by (cases t)
  show ?case
    unfolding t using Cons.IH [of "clear_last v s"]
    by (auto simp: clear_last_def)
qed

lemma elapse_fields:
  "lastUid (elapse d s)
     = (if \<exists>(a, v) \<in> set (timeouts s). a \<le> clock s + d \<and> lastUid s = Some v then None
        else lastUid s)"
  "detected (elapse d s) = detected s"
  "timeouts (elapse d s) = filter (\<lambda>(a, v). \<not> a \<le> clock s + d) (timeouts s)"
  "clock (elapse d s) = clock s + d"
  "polling (elapse d s) = polling s"
  "onCardDetected (elapse d s) = onCardDetected s"
  by (auto simp: elapse_def Let_def fold_clear_last)

lemma step_ahead:
  assumes "\<forall>(a, v) \<in> set (timeouts s). clock s < a"
  shows "\<forall>(a, v) \<in> set (timeouts (step e s)). clock (step e s) < a"
proof (cases e)
  case Poll
  show ?thesis
    unfolding Poll step.simps
    by (cases s rule: poll_cases) (use assms in auto)
next
  case (Elapse d)
  show ?thesis
    unfolding Elapse step.simps by (auto simp: elapse_fields)
next
  case Stop
  with assms show ?thesis by (simp add: stop_def)
qed

lemma run_ahead:
  assumes "\<forall>(a, v) \<in> set (timeouts s). clock s < a"
  shows "\<forall>(a, v) \<in> set (timeouts (run es s)). clock (run es s) < a"
  using assms
proof (induction es arbitrary: s)
  case Nil
  then show ?case by (simp add: run_def)
next
  case (Cons e es)
  from Cons.IH [OF step_ahead [OF Cons.prems, of e]] show ?case by (simp add: run_def)
qed

lemma step_grows: "\<exists>n. detected (step e s) = detected s @ n"
proof (cases e)
  case Poll
  show ?thesis
    unfolding Poll step.simps by (cases s rule: poll_cases) simp_all
next
  case (Elapse d)
  then show ?thesis by (simp add: elapse_fields)
next
  case Stop
  then show ?thesis by (simp add: stop_def)
qed

lemma run_grows: "\<exists>ds. detected (run es s) = detected s @ ds"
proof (induction es arbitrary: s)
  case Nil
  show ?case by (simp add: run_def)
next
  case (Cons e es)
  from step_grows [of e s] obtain n where n: "detected (step e s) = detected s @ n" ..
  from Cons.IH [of "step e s"] obtain ds where "detected (run es (step e s)) = detected (step e s) @ ds" ..
  with n show ?case by (simp add: run_def)
qed

lemma step_clock: "clock s \<le> clock (step e s)"
proof (cases e)
  case Poll
  show ?thesis unfolding Poll step.simps by (cases s rule: poll_cases) simp_all
next
  case (Elapse d)
  then show ?thesis by (simp add: elapse_fields)
next
  case Stop
  then show ?thesis by (simp add: stop_def)
qed

lemma run_clock: "clock s \<le> clock (run es s)"
proof (induction es arbitrary: s)
  case Nil
  show ?case by (simp add: run_def)
next
  case (Cons e es)
  from step_clock [of s e] Cons.IH [of "step e s"] show ?case by (simp add: run_def)
qed


lemma step_keeps:
  assumes "(d, u) \<in> set (timeouts s) \<or> lastUid s \<noteq> Some u"
    and "detected (step e s) = detected s @ n" "u \<notin> set n"
  shows "(d, u) \<in> set (timeouts (step e s)) \<or> lastUid (step e s) \<noteq> Some u"
proof (cases e)
  case Poll
  show ?thesis
  proof (cases s rule: poll_cases)
    case still
    with assms(1) Poll show ?thesis by simp
  next
    case (told v)
    with assms(2,3) Poll have "v \<noteq> u" by auto
    with told Poll show ?thesis by simp
  next
    case (unheard v thrown)
    with assms(2,3) Poll have "v \<noteq> u" by auto
    with unheard Poll show ?thesis by simp
  qed
next
  case (Elapse t)
  show ?thesis
  proof (cases "lastUid s = Some u")
    case False
    then show ?thesis unfolding Elapse step.simps by (simp add: elapse_fields)
  next
    case True
    with assms(1) have "(d, u) \<in> set (timeouts s)" by simp
    with True show ?thesis
      unfolding Elapse step.simps by (cases "d \<le> clock s + t") (auto simp: elapse_fields)
  qed
next
  case Stop
  with assms(1) show ?thesis by (simp add: stop_def)
qed

lemma run_keeps:
  assumes "(d, u) \<in> set (timeouts s) \<or> lastUid s \<noteq> Some u"
    and "detected (run es s) = detected s @ ds" "u \<notin> set ds"
  shows "(d, u) \<in> set (timeouts (run es s)) \<or> lastUid (run es s) \<noteq> Some u"
  using assms
proof (induction es arbitrary: s ds)
  case Nil
  then show ?case by (simp add: run_def)
next
  case (Cons e es)
  have r: "run (e # es) s = run es (step e s)" by (simp add: run_def)
  from step_grows [of e s] obtain n where n: "detected (step e s) = detected s @ n" ..
  from run_grows [of es "step e s"] obtain ds' where
    ds': "detected (run es (step e s)) = detected (step e s) @ ds'" ..
  from Cons.prems(2) r n ds' have "ds = n @ ds'" by simp
  with Cons.prems(3) have u: "u \<notin> set n" "u \<notin> set ds'" by simp_all
  from step_keeps [OF Cons.prems(1) n u(1)]
  have "(d, u) \<in> set (timeouts (step e s)) \<or> lastUid (step e s) \<noteq> Some u" .
  from Cons.IH [OF this ds' u(2)] show ?case by (simp add: r)
qed

text \<open>
  What the detection does keep. A poll calls the callback at most once, and only with a
  non-empty \<open>uid\<close> it has just read that differs from \<open>lastUid\<close>, which it then becomes;
  the passing of time calls nothing.
\<close>

lemma callback_only_for_new_card:
  "(detected (poll s) = detected s
      \<or> (\<exists>u. u \<noteq> [] \<and> fst (readCard (rdr s)) = Inr (Some u) \<and> lastUid s \<noteq> Some u
            \<and> detected (poll s) = detected s @ [u] \<and> lastUid (poll s) = Some u))
   \<and> detected (elapse d s) = detected s"
  by (cases s rule: poll_cases) (auto simp: elapse_fields)

text \<open>
  Where the callback returned, no clearing for the card was pending from an earlier call
  and nothing else is reported, \<open>lastUid\<close> stays the card for the 5000 ms that follow.
\<close>

lemma step_holds:
  assumes "lastUid s = Some u" "\<forall>(a, v) \<in> set (timeouts s). v = u \<longrightarrow> d \<le> a"
    and "detected (step e s) = detected s" "clock (step e s) < d"
  shows "lastUid (step e s) = Some u \<and> (\<forall>(a, v) \<in> set (timeouts (step e s)). v = u \<longrightarrow> d \<le> a)"
proof (cases e)
  case Poll
  show ?thesis
  proof (cases s rule: poll_cases)
    case still
    with assms(1,2) Poll show ?thesis by simp
  next
    case (told v)
    with assms(3) Poll show ?thesis by simp
  next
    case (unheard v thrown)
    with assms(3) Poll show ?thesis by simp
  qed
next
  case (Elapse t)
  with assms(4) have t: "clock s + t < d" by (simp add: elapse_fields)
  have "\<not> (\<exists>(a, v) \<in> set (timeouts s). a \<le> clock s + t \<and> lastUid s = Some v)"
    using assms(1,2) t by fastforce
  with assms(1,2) show ?thesis
    unfolding Elapse step.simps by (auto simp: elapse_fields)
next
  case Stop
  with assms(1,2) show ?thesis by (simp add: stop_def)
qed

lemma run_holds:
  assumes "lastUid s = Some u" "\<forall>(a, v) \<in> set (timeouts s). v = u \<longrightarrow> d \<le> a"
    and "detected (run es s) = detected s" "clock (run es s) < d"
  shows "lastUid (run es s) = Some u"
  using assms
proof (induction es arbitrary: s)
  case Nil
  then show ?case by (simp add: run_def)
next
  case (Cons e es)
  have r: "run (e # es) s = run es (step e s)" by (simp add: run_def)
  from step_grows [of e s] obtain n where n: "detected (step e s) = detected s @ n" ..
  from run_grows [of es "step e s"] obtain ds where
    ds: "detected (run es (step e s)) = detected (step e s) @ ds" ..
  from Cons.prems(3) r n ds have quiet: "n = []" "ds = []" by simp_all
  from run_clock [of "step e s" es] Cons.prems(4) r have c: "clock (step e s) < d" by simp
  from step_holds [OF Cons.prems(1,2) _ c] n quiet
  have "lastUid (step e s) = Some u"
    "\<forall>(a, v) \<in> set (timeouts (step e s)). v = u \<longrightarrow> d \<le> a"
    by simp_all
  from Cons.IH [OF this] ds quiet Cons.prems(4) r show ?case by simp
qed

lemma held_card_suppressed:
  assumes "detected (poll s) = detected s @ [u]" "onCardDetected s (detected s) u = None"
    and "\<forall>(a, v) \<in> set (timeouts s). v \<noteq> u"
    and "detected (run es (poll s)) = detected (poll s)"
    and "clock (run es (poll s)) < clock s + 5000"
    and "fst (readCard (rdr (run es (poll s)))) = Inr (Some u)"
  shows "lastUid (run es (poll s)) = Some u
       \<and> detected (poll (run es (poll s))) = detected (run es (poll s))"
proof -
  have p: "lastUid (poll s) = Some u
         \<and> (\<forall>(a, v) \<in> set (timeouts (poll s)). v = u \<longrightarrow> clock s + 5000 \<le> a)"
    by (cases s rule: poll_cases) (use assms(1,2,3) in auto)
  then have k: "lastUid (run es (poll s)) = Some u"
    using run_holds [of "poll s" u "clock s + 5000" es] assms(4,5) by blast
  have "detected (poll (run es (poll s))) = detected (run es (poll s))"
    by (cases "run es (poll s)" rule: poll_cases) (use k assms(6) in auto)
  with k show ?thesis ..
qed

text \<open>
  Where the callback returned, once 5000 ms have passed without another call for the
  card, \<open>lastUid\<close> is no longer the card.
\<close>

lemma cleared_after_window:
  assumes ahead: "\<forall>(a, v) \<in> set (timeouts s). clock s < a"
    and told: "detected (poll s) = detected s @ [u]" "onCardDetected s (detected s) u = None"
    and quiet: "detected (run es (poll s)) = detected (poll s) @ ds" "u \<notin> set ds"
    and late: "clock s + 5000 \<le> clock (run es (poll s))"
  shows "lastUid (run es (poll s)) \<noteq> Some u"
proof -
  have "(clock s + 5000, u) \<in> set (timeouts (poll s))"
    by (cases s rule: poll_cases) (use told in auto)
  then have "(clock s + 5000, u) \<in> set (timeouts (poll s)) \<or> lastUid (poll s) \<noteq> Some u" by simp
  from run_keeps [OF this quiet]
  have k: "(clock s + 5000, u) \<in> set (timeouts (run es (poll s)))
         \<or> lastUid (run es (poll s)) \<noteq> Some u" .
  from step_ahead [OF ahead, of Poll] have "\<forall>(a, v) \<in> set (timeouts (poll s)). clock (poll s) < a"
    by simp
  from run_ahead [OF this, of es] late
  have "(clock s + 5000, u) \<notin> set (timeouts (run es (poll s)))" by auto
  with k show ?thesis by simp
qed

text \<open>
  C4, at two inputs. With polls every 1500 ms that read one card, then another, then the
  first again from 3000 ms on: the callback is called for the first card at 3000 ms, the
  read at 4500 ms is passed over, the clearing set by the call at 0 ms empties
  \<open>lastUid\<close> at 5000 ms, which is 2000 ms after the last call, and the card is reported
  again at 6000 ms. With a callback that throws and a card that stays on the reader: the
  callback is called once, no clearing is ever set, and \<open>lastUid\<close> is still the card at
  the polls 6000 ms and 12000 ms later, which call nothing.
\<close>

theorem continuous_read_window_not_kept:
  "startContinuousRead two_cards_reader listener 0 = Inr two_cards
   \<and> detected (run [Poll, Elapse 1500, Poll, Elapse 1500, Poll] two_cards)
       = [''A1B2C3D4'', ''E5F6A7B8'', ''A1B2C3D4'']
   \<and> clock (run [Poll, Elapse 1500, Poll, Elapse 1500, Poll] two_cards) = 3000
   \<and> detected (run [Poll, Elapse 1500, Poll, Elapse 1500, Poll, Elapse 1500, Poll] two_cards)
       = [''A1B2C3D4'', ''E5F6A7B8'', ''A1B2C3D4'']
   \<and> lastUid (run [Poll, Elapse 1500, Poll, Elapse 1500, Poll, Elapse 1500, Poll] two_cards)
       = Some ''A1B2C3D4''
   \<and> clock (run [Poll, Elapse 1500, Poll, Elapse 1500, Poll, Elapse 1500, Poll, Elapse 500] two_cards)
       = 5000
   \<and> lastUid (run [Poll, Elapse 1500, Poll, Elapse 1500, Poll, Elapse 1500, Poll, Elapse 500] two_cards)
       = None
   \<and> clock (run [Poll, Elapse 1500, Poll, Elapse 1500, Poll, Elapse 1500, Poll, Elapse 1500, Poll]
        two_cards) = 6000
   \<and> detected (run [Poll, Elapse 1500, Poll, Elapse 1500, Poll, Elapse 1500, Poll, Elapse 1500, Poll]
        two_cards) = [''A1B2C3D4'', ''E5F6A7B8'', ''A1B2C3D4'', ''A1B2C3D4'']
   \<and> startContinuousRead demo_reader failing_listener 0 = Inr unheard_detection
   \<and> detected (run [Poll, Elapse 6000, Poll, Elapse 6000, Poll] unheard_detection) = [''A1B2C3D4'']
   \<and> lastUid (run [Poll, Elapse 6000, Poll, Elapse 6000, Poll] unheard_detection) = Some ''A1B2C3D4''
   \<and> timeouts (run [Poll, Elapse 6000, Poll, Elapse 6000, Poll] unheard_detection) = []"
proof -
  have u: "uid_hex [0xA1, 0xB2, 0xC3, 0xD4] = ''A1B2C3D4''" "uid_hex [0xE5, 0xF6, 0xA7, 0xB8] = ''E5F6A7B8''"
    by (simp_all add: uid_hex_bytes)
  note defs = run_def poll_def elapse_def readCard_def truthy_def clear_last_def u
    listener_def failing_listener_def
  have s1: "startContinuousRead two_cards_reader listener 0 = Inr two_cards"
    by (simp add: startContinuousRead_def two_cards_def two_cards_reader_def)
  have s2: "startContinuousRead demo_reader failing_listener 0 = Inr unheard_detection"
    by (simp add: startContinuousRead_def unheard_detection_def demo_reader_def)
  have at3000: "run [Poll, Elapse 1500, Poll, Elapse 1500, Poll] two_cards
      = two_cards\<lparr>rdr := two_cards_reader\<lparr>reader := Some \<lparr>responses =
                       (\<lambda>k. if k = 1 then UidOk [0xE5, 0xF6, 0xA7, 0xB8]
                            else UidOk [0xA1, 0xB2, 0xC3, 0xD4]), cursor = 3\<rparr>\<rparr>,
          lastUid := Some ''A1B2C3D4'',
          timeouts := [(5000, ''A1B2C3D4''), (6500, ''E5F6A7B8''), (8000, ''A1B2C3D4'')],
          clock := 3000, detected := [''A1B2C3D4'', ''E5F6A7B8'', ''A1B2C3D4'']\<rparr>"
    by (simp add: defs two_cards_def two_cards_reader_def)
  have at4500: "run [Poll, Elapse 1500, Poll, Elapse 1500, Poll, Elapse 1500, Poll] two_cards
      = two_cards\<lparr>rdr := two_cards_reader\<lparr>reader := Some \<lparr>responses =
                       (\<lambda>k. if k = 1 then UidOk [0xE5, 0xF6, 0xA7, 0xB8]
                            else UidOk [0xA1, 0xB2, 0xC3, 0xD4]), cursor = 4\<rparr>\<rparr>,
          lastUid := Some ''A1B2C3D4'',
          timeouts := [(5000, ''A1B2C3D4''), (6500, ''E5F6A7B8''), (8000, ''A1B2C3D4'')],
          clock := 4500, detected := [''A1B2C3D4'', ''E5F6A7B8'', ''A1B2C3D4'']\<rparr>"
    by (simp add: defs two_cards_def two_cards_reader_def)
  have at5000: "run [Poll, Elapse 1500, Poll, Elapse 1500, Poll, Elapse 1500, Poll, Elapse 500] two_cards
      = two_cards\<lparr>rdr := two_cards_reader\<lparr>reader := Some \<lparr>responses =
                       (\<lambda>k. if k = 1 then UidOk [0xE5, 0xF6, 0xA7, 0xB8]
                            else UidOk [0xA1, 0xB2, 0xC3, 0xD4]), cursor = 4\<rparr>\<rparr>,
          lastUid := None,
          timeouts := [(6500, ''E5F6A7B8''), (8000, ''A1B2C3D4'')],
          clock := 5000, detected := [''A1B2C3D4'', ''E5F6A7B8'', ''A1B2C3D4'']\<rparr>"
    by (simp add: defs two_cards_def two_cards_reader_def)
  have at6000: "run [Poll, Elapse 1500, Poll, Elapse 1500, Poll, Elapse 1500, Poll, Elapse 1500, Poll]
        two_cards
      = two_cards\<lparr>rdr := two_cards_reader\<lparr>reader := Some \<lparr>responses =
                       (\<lambda>k. if k = 1 then UidOk [0xE5, 0xF6, 0xA7, 0xB8]
                            else UidOk [0xA1, 0xB2, 0xC3, 0xD4]), cursor = 5\<rparr>\<rparr>,
          lastUid := Some ''A1B2C3D4'',
          timeouts := [(6500, ''E5F6A7B8''), (8000, ''A1B2C3D4''), (11000, ''A1B2C3D4'')],
          clock := 6000,
          detected := [''A1B2C3D4'', ''E5F6A7B8'', ''A1B2C3D4'', ''A1B2C3D4'']\<rparr>"
    by (simp add: defs two_cards_def two_cards_reader_def)
  have stuck: "run [Poll, Elapse 6000, Poll, Elapse 6000, Poll] unheard_detection
      = unheard_detection\<lparr>rdr := demo_reader\<lparr>reader := Some (held_card\<lparr>cursor := 3\<rparr>)\<rparr>,
          lastUid := Some ''A1B2C3D4'', clock := 12000, detected := [''A1B2C3D4'']\<rparr>"
    by (simp add: defs unheard_detection_def demo_reader_def held_card_def)
  show ?thesis
    unfolding at3000 at4500 at5000 at6000 stuck
    by (simp add: s1 s2 two_cards_def unheard_detection_def)
qed

section \<open>Properties of the socket endpoint\<close>

lemma on_interval_sent:
  "\<exists>ds. sent (snd (on_interval now (srv, c))) = sent c @ ds
        \<and> (ds = [] \<or> (\<exists>u. ds = [CardDetected u now]))"
proof (cases "rfidInterval c")
  case False
  then show ?thesis by (simp add: on_interval_def)
next
  case True
  show ?thesis
  proof (cases "rfidReader srv")
    case None
    with True show ?thesis by (simp add: on_interval_def)
  next
    case (Some r)
    obtain res r' where rc: "readCard r = (res, r')" by (cases "readCard r")
    show ?thesis
      using True Some rc by (cases res) (simp_all add: on_interval_def)
  qed
qed

lemma fold_on_interval_sent:
  "\<exists>ds. sent (snd (fold on_interval nows sc)) = sent (snd sc) @ ds
        \<and> list_all (\<lambda>m. \<exists>u t. m = CardDetected u t) ds"
proof (induction nows arbitrary: sc)
  case Nil
  show ?case by simp
next
  case (Cons now nows)
  obtain srv c where sc: "sc = (srv, c)" by (cases sc)
  from on_interval_sent [of now srv c] obtain d1 where
    d1: "sent (snd (on_interval now sc)) = sent c @ d1"
        "d1 = [] \<or> (\<exists>u. d1 = [CardDetected u now])"
    unfolding sc by blast
  from Cons.IH [of "on_interval now sc"] obtain d2 where
    d2: "sent (snd (fold on_interval nows (on_interval now sc))) = sent (snd (on_interval now sc)) @ d2"
        "list_all (\<lambda>m. \<exists>u t. m = CardDetected u t) d2"
    by blast
  have "list_all (\<lambda>m. \<exists>u t. m = CardDetected u t) (d1 @ d2)"
    using d1(2) d2(2) by auto
  moreover have "sent (snd (fold on_interval (now # nows) sc)) = sent (snd sc) @ (d1 @ d2)"
    using d1(1) d2(1) sc by simp
  ultimately show ?case by blast
qed

text \<open>
  On every connection the handshake is the first message sent, it is sent once, and all
  that follows it are detections.
\<close>

lemma socket_handshake_first:
  "\<exists>ds. sent (snd (polled srv nows))
          = Connected ''WebSocket connection established''
              (rfidReader srv \<noteq> None) (printerService srv \<noteq> None) # ds
        \<and> list_all (\<lambda>m. \<exists>u t. m = CardDetected u t) ds"
  using fold_on_interval_sent [of nows "(srv, on_connection srv)"]
  by (simp add: polled_def on_connection_def)

text \<open>
  C2, at a card that stays on the reader for two polls of the socket's interval, one
  second apart: after the handshake, which is sent first, the client is sent a
  \<open>card_detected\<close> for each of the two polls.
\<close>

theorem socket_sends_held_card_twice:
  "sent (snd (polled demo_server [''2025-10-21T10:30:01.000Z'', ''2025-10-21T10:30:02.000Z'']))
     = [Connected ''WebSocket connection established'' True False,
        CardDetected ''A1B2C3D4'' ''2025-10-21T10:30:01.000Z'',
        CardDetected ''A1B2C3D4'' ''2025-10-21T10:30:02.000Z'']"
proof -
  have u: "uid_hex [0xA1, 0xB2, 0xC3, 0xD4] = ''A1B2C3D4''"
    by (simp add: uid_hex_bytes)
  show ?thesis
    by (simp add: polled_def on_connection_def on_interval_def demo_server_def demo_reader_def
        held_card_def readCard_def truthy_def u)
qed

text \<open>The reader's own continuous detection reports the same card once.\<close>

lemma continuous_read_reports_held_card_once:
  "map_sum id detected
     (map_sum id (run [Poll, Elapse 1000, Poll]) (startContinuousRead demo_reader listener 0))
     = Inr [''A1B2C3D4'']"
proof -
  have u: "uid_hex [0xA1, 0xB2, 0xC3, 0xD4] = ''A1B2C3D4''"
    by (simp add: uid_hex_bytes)
  show ?thesis
    by (simp add: startContinuousRead_def run_def poll_def elapse_def demo_reader_def
        held_card_def readCard_def truthy_def u clear_last_def listener_def)
qed

end
